theory Spec2Isabelle
  imports Main
begin

unbundle bit_operations_syntax

section \<open>Errors\<close>

text \<open>
  Every exception the generator can raise is a value. The built-in exceptions keep their
  Python names; each \<open>raise Exception(...)\<close> of the source has a constructor of its own,
  named after its message.
\<close>

datatype error =
    KeyError
  | IndexError
  | ValueError
  | StopIteration
  | TypeError
  | OverflowError
  | AttributeError
  | InvalidFixedOperandSizes
  | InvalidRegtyForOp3
  | InvalidOpcodeExtension
  | UnsupportedOpcodeKind
  | SetNotOverriding
  | HaveWant
  | MaximumTableSizeExceeded

section \<open>The bit-struct \<open>InstrFlags\<close>\<close>

record InstrFlags =
  modrm_idx :: int
  modreg_idx :: int
  vexreg_idx :: int
  zeroreg_idx :: int
  imm_idx :: int
  zeroreg_val :: int
  lock :: int
  imm_control :: int
  vsib :: int
  op0_size :: int
  op1_size :: int
  op2_size :: int
  op3_size :: int
  size8 :: int
  sized64 :: int
  size_fix1 :: int
  size_fix2 :: int
  instr_width :: int
  op0_regty :: int
  op1_regty :: int
  op2_regty :: int
  unused :: int

text \<open>\<open>InstrFlags()\<close>: every field defaults to 0.\<close>

definition InstrFlags0 :: InstrFlags where
  "InstrFlags0 = \<lparr> modrm_idx = 0, modreg_idx = 0, vexreg_idx = 0, zeroreg_idx = 0,
     imm_idx = 0, zeroreg_val = 0, lock = 0, imm_control = 0, vsib = 0,
     op0_size = 0, op1_size = 0, op2_size = 0, op3_size = 0, size8 = 0, sized64 = 0,
     size_fix1 = 0, size_fix2 = 0, instr_width = 0, op0_regty = 0, op1_regty = 0,
     op2_regty = 0, unused = 0 \<rparr>"

text \<open>The fields with their sizes, in declaration order (\<open>zip(names, sizes)\<close>).\<close>

definition flag_fields :: "InstrFlags \<Rightarrow> (int \<times> nat) list" where
  "flag_fields f =
    [(modrm_idx f, 2), (modreg_idx f, 2), (vexreg_idx f, 2), (zeroreg_idx f, 2),
     (imm_idx f, 2), (zeroreg_val f, 1), (lock f, 1), (imm_control f, 3), (vsib f, 1),
     (op0_size f, 2), (op1_size f, 2), (op2_size f, 2), (op3_size f, 2),
     (size8 f, 1), (sized64 f, 1), (size_fix1 f, 3), (size_fix2 f, 2),
     (instr_width f, 1), (op0_regty f, 3), (op1_regty f, 3), (op2_regty f, 3),
     (unused f, 7)]"

text \<open>
  The loop of \<open>_encode\<close>: \<open>enc += (value & ((1 << size) - 1)) << offset\<close>, the offset being
  the sum of the sizes before (\<open>accumulate\<close>).
\<close>

fun pack :: "nat \<Rightarrow> (int \<times> nat) list \<Rightarrow> int" where
  "pack off [] = 0"
| "pack off ((v, sz) # fs) = push_bit off (v AND (push_bit sz 1 - 1)) + pack (off + sz) fs"

text \<open>\<open>int.to_bytes(length, "little")\<close>; it raises OverflowError when the value does not fit.\<close>

definition to_bytes :: "int \<Rightarrow> nat \<Rightarrow> error + int list" where
  "to_bytes n len =
     (if n < 0 \<or> 256 ^ len \<le> n then Inl OverflowError
      else Inr (map (\<lambda>i. (n div 256 ^ i) mod 256) [0..<len]))"

fun from_bytes :: "int list \<Rightarrow> int" where
  "from_bytes [] = 0"
| "from_bytes (b # bs) = b + 256 * from_bytes bs"

definition encode_flags :: "InstrFlags \<Rightarrow> nat \<Rightarrow> error + int list" where
  "encode_flags f len = to_bytes (pack 0 (flag_fields f)) len"

section \<open>Encoding forms\<close>

text \<open>
  \<open>ENCODINGS\<close>, entry by entry. The stored slot indices are written as in the source,
  \<open>0^3\<close> being 3, \<open>1^3\<close> being 2, \<open>2^3\<close> being 1 and \<open>3^3\<close> being 0. The keyword
  \<open>imm_byte\<close> of three entries names no field, so the constructor drops it.
\<close>

definition ENCODINGS :: "(string \<times> InstrFlags) list" where
  "ENCODINGS =
   [(''NP'', InstrFlags0),
    (''M'', InstrFlags0\<lparr>modrm_idx := 3\<rparr>),
    (''M1'', InstrFlags0\<lparr>modrm_idx := 3, imm_idx := 2, imm_control := 1\<rparr>),
    (''MI'', InstrFlags0\<lparr>modrm_idx := 3, imm_idx := 2, imm_control := 4\<rparr>),
    (''MC'', InstrFlags0\<lparr>modrm_idx := 3, zeroreg_idx := 2, zeroreg_val := 1\<rparr>),
    (''MR'', InstrFlags0\<lparr>modrm_idx := 3, modreg_idx := 2\<rparr>),
    (''RM'', InstrFlags0\<lparr>modrm_idx := 2, modreg_idx := 3\<rparr>),
    (''RMA'', InstrFlags0\<lparr>modrm_idx := 2, modreg_idx := 3, zeroreg_idx := 1\<rparr>),
    (''MRI'', InstrFlags0\<lparr>modrm_idx := 3, modreg_idx := 2, imm_idx := 1, imm_control := 4\<rparr>),
    (''RMI'', InstrFlags0\<lparr>modrm_idx := 2, modreg_idx := 3, imm_idx := 1, imm_control := 4\<rparr>),
    (''MRC'', InstrFlags0\<lparr>modrm_idx := 3, modreg_idx := 2, zeroreg_idx := 1, zeroreg_val := 1\<rparr>),
    (''I'', InstrFlags0\<lparr>imm_idx := 3, imm_control := 4\<rparr>),
    (''IA'', InstrFlags0\<lparr>zeroreg_idx := 3, imm_idx := 2, imm_control := 4\<rparr>),
    (''O'', InstrFlags0\<lparr>modreg_idx := 3\<rparr>),
    (''OI'', InstrFlags0\<lparr>modreg_idx := 3, imm_idx := 2, imm_control := 4\<rparr>),
    (''OA'', InstrFlags0\<lparr>modreg_idx := 3, zeroreg_idx := 2\<rparr>),
    (''AO'', InstrFlags0\<lparr>modreg_idx := 2, zeroreg_idx := 3\<rparr>),
    (''A'', InstrFlags0\<lparr>zeroreg_idx := 3\<rparr>),
    (''D'', InstrFlags0\<lparr>imm_idx := 3, imm_control := 6\<rparr>),
    (''FD'', InstrFlags0\<lparr>zeroreg_idx := 3, imm_idx := 2, imm_control := 2\<rparr>),
    (''TD'', InstrFlags0\<lparr>zeroreg_idx := 2, imm_idx := 3, imm_control := 2\<rparr>),
    (''RVM'', InstrFlags0\<lparr>modrm_idx := 1, modreg_idx := 3, vexreg_idx := 2\<rparr>),
    (''RVMI'', InstrFlags0\<lparr>modrm_idx := 1, modreg_idx := 3, vexreg_idx := 2, imm_idx := 0, imm_control := 4\<rparr>),
    (''RVMR'', InstrFlags0\<lparr>modrm_idx := 1, modreg_idx := 3, vexreg_idx := 2, imm_idx := 0, imm_control := 3\<rparr>),
    (''RMV'', InstrFlags0\<lparr>modrm_idx := 2, modreg_idx := 3, vexreg_idx := 1\<rparr>),
    (''VM'', InstrFlags0\<lparr>modrm_idx := 2, vexreg_idx := 3\<rparr>),
    (''VMI'', InstrFlags0\<lparr>modrm_idx := 2, vexreg_idx := 3, imm_idx := 1, imm_control := 4\<rparr>),
    (''MVR'', InstrFlags0\<lparr>modrm_idx := 3, modreg_idx := 1, vexreg_idx := 2\<rparr>)]"

section \<open>Operand kinds and descriptors\<close>

text \<open>The fields \<open>size\<close> and \<open>kind\<close> of \<open>OpKind\<close>.\<close>

record OpKind =
  opk_size :: int
  opk_kind :: string

definition SZ_OP :: int where "SZ_OP = -1"
definition SZ_VEC :: int where "SZ_VEC = -2"
definition K_MEM :: string where "K_MEM = ''mem''"
definition K_IMM :: string where "K_IMM = ''imm''"

definition mkOpKind :: "int \<Rightarrow> string \<Rightarrow> OpKind" where
  "mkOpKind s k = \<lparr> opk_size = s, opk_kind = k \<rparr>"

definition OPKINDS :: "(string \<times> OpKind) list" where
  "OPKINDS =
   [(''IMM'', mkOpKind SZ_OP K_IMM), (''IMM8'', mkOpKind 1 K_IMM),
    (''IMM16'', mkOpKind 2 K_IMM), (''IMM32'', mkOpKind 4 K_IMM),
    (''GP'', mkOpKind SZ_OP ''GP''), (''GP8'', mkOpKind 1 ''GP''),
    (''GP16'', mkOpKind 2 ''GP''), (''GP32'', mkOpKind 4 ''GP''),
    (''GP64'', mkOpKind 8 ''GP''), (''MMX'', mkOpKind 8 ''MMX''),
    (''XMM'', mkOpKind SZ_VEC ''XMM''), (''XMM8'', mkOpKind 1 ''XMM''),
    (''XMM16'', mkOpKind 2 ''XMM''), (''XMM32'', mkOpKind 4 ''XMM''),
    (''XMM64'', mkOpKind 8 ''XMM''), (''XMM128'', mkOpKind 16 ''XMM''),
    (''XMM256'', mkOpKind 32 ''XMM''), (''SREG'', mkOpKind 2 ''SEG''),
    (''FPU'', mkOpKind 10 ''FPU''), (''MEM'', mkOpKind SZ_OP K_MEM),
    (''MEMV'', mkOpKind SZ_VEC K_MEM), (''MEMZ'', mkOpKind 0 K_MEM),
    (''MEM8'', mkOpKind 1 K_MEM), (''MEM16'', mkOpKind 2 K_MEM),
    (''MEM32'', mkOpKind 4 K_MEM), (''MEM64'', mkOpKind 8 K_MEM),
    (''MEM128'', mkOpKind 16 K_MEM), (''MASK8'', mkOpKind 1 ''MASK''),
    (''MASK16'', mkOpKind 2 ''MASK''), (''MASK32'', mkOpKind 4 ''MASK''),
    (''MASK64'', mkOpKind 8 ''MASK''), (''BND'', mkOpKind 0 ''BND''),
    (''CR'', mkOpKind 0 ''CR''), (''DR'', mkOpKind 0 ''DR'')]"

record InstrDesc =
  mnemonic :: string
  encoding :: string
  operands :: "OpKind list"
  flags :: "string set"

definition OPKIND_REGTYS :: "(string \<times> int) list" where
  "OPKIND_REGTYS =
     [(''GP'', 0), (''FPU'', 1), (''XMM'', 2), (''MASK'', 3), (''MMX'', 4), (''BND'', 5)]"

definition OPKIND_SIZES :: "(int \<times> int) list" where
  "OPKIND_SIZES =
     [(0, 0), (1, 1), (2, 2), (4, 3), (8, 4), (16, 5), (32, 6), (10, 0),
      (SZ_OP, -2), (SZ_VEC, -3)]"

text \<open>A payload word is an integer or a symbol (the mnemonic tag is a string).\<close>

datatype cell = S string | I int

text \<open>\<open>[self.OPKIND_SIZES[opkind.size] for opkind in self.operands]\<close>, KeyError on a miss.\<close>

fun operand_sizes :: "OpKind list \<Rightarrow> error + int list" where
  "operand_sizes [] = Inr []"
| "operand_sizes (opkind # ops) =
     (case map_of OPKIND_SIZES (opk_size opkind) of
        None \<Rightarrow> Inl KeyError
      | Some sz \<Rightarrow> (case operand_sizes ops of Inl e \<Rightarrow> Inl e | Inr szs \<Rightarrow> Inr (sz # szs)))"

definition size_key :: "int \<Rightarrow> bool" where
  "size_key x \<longleftrightarrow> 1 \<le> x \<and> x \<le> 4"

text \<open>
  \<open>sorted((x for x in opsz if x >= 0), key=lambda x: 1 <= x <= 4)\<close> over the set
  \<open>opsz\<close>: a stable sort on a boolean key, so the codes outside 1..4 come first and those
  inside follow. Within each group the order is the set's iteration order, which for the
  small integers in question is ascending wherever the result does not raise.
\<close>

definition fixed_sizes :: "int list \<Rightarrow> int list" where
  "fixed_sizes opsz =
     (let xs = sort (remdups (filter (\<lambda>x. 0 \<le> x) opsz))
      in filter (\<lambda>x. \<not> size_key x) xs @ filter size_key xs)"

text \<open>\<open>xs.index(x)\<close>: the first position, ValueError when absent.\<close>

fun index_of :: "'a list \<Rightarrow> 'a \<Rightarrow> error + int" where
  "index_of [] x = Inl ValueError"
| "index_of (y # ys) x =
     (if y = x then Inr 0
      else (case index_of ys x of Inl e \<Rightarrow> Inl e | Inr i \<Rightarrow> Inr (i + 1)))"

text \<open>\<open>setattr(flags, "op%d_size" % i, v)\<close>; an \<open>i\<close> above 3 sets an attribute that is no field.\<close>

definition set_op_size :: "nat \<Rightarrow> int \<Rightarrow> InstrFlags \<Rightarrow> InstrFlags" where
  "set_op_size i v f =
     (if i = 0 then f\<lparr>op0_size := v\<rparr> else if i = 1 then f\<lparr>op1_size := v\<rparr>
      else if i = 2 then f\<lparr>op2_size := v\<rparr> else if i = 3 then f\<lparr>op3_size := v\<rparr> else f)"

definition set_op_regty :: "nat \<Rightarrow> int \<Rightarrow> InstrFlags \<Rightarrow> InstrFlags" where
  "set_op_regty i v f =
     (if i = 0 then f\<lparr>op0_regty := v\<rparr> else if i = 1 then f\<lparr>op1_regty := v\<rparr>
      else if i = 2 then f\<lparr>op2_regty := v\<rparr> else f)"

text \<open>The loop \<open>for i, opkind in enumerate(self.operands)\<close>.\<close>

fun set_operands :: "int list \<Rightarrow> nat \<Rightarrow> OpKind list \<Rightarrow> InstrFlags \<Rightarrow> error + InstrFlags" where
  "set_operands sizes i [] f = Inr f"
| "set_operands sizes i (opkind # ops) f =
     (case map_of OPKIND_SIZES (opk_size opkind) of
        None \<Rightarrow> Inl KeyError
      | Some sz \<Rightarrow>
         (let reg_type = (case map_of OPKIND_REGTYS (opk_kind opkind) of None \<Rightarrow> 7 | Some r \<Rightarrow> r)
          in case index_of sizes sz of
               Inl e \<Rightarrow> Inl e
             | Inr idx \<Rightarrow>
                (let f1 = set_op_size i idx f
                 in if i < 3 then set_operands sizes (Suc i) ops (set_op_regty i reg_type f1)
                    else if reg_type \<noteq> 7 \<and> reg_type \<noteq> 2 then Inl InvalidRegtyForOp3
                    else set_operands sizes (Suc i) ops f1)))"

definition misc_flags :: "string set \<Rightarrow> InstrFlags \<Rightarrow> InstrFlags" where
  "misc_flags fl f =
     (let f1 = (if ''DEF64'' \<in> fl then f\<lparr>sized64 := 1\<rparr> else f);
          f2 = (if ''SIZE_8'' \<in> fl then f1\<lparr>size8 := 1\<rparr> else f1);
          f3 = (if ''INSTR_WIDTH'' \<in> fl then f2\<lparr>instr_width := 1\<rparr> else f2);
          f4 = (if ''LOCK'' \<in> fl then f3\<lparr>lock := 1\<rparr> else f3);
          f5 = (if ''VSIB'' \<in> fl then f4\<lparr>vsib := 1\<rparr> else f4)
      in f5)"

text \<open>\<open>next(op for op in self.operands if op.kind == OpKind.K_IMM)\<close>.\<close>

fun next_imm :: "OpKind list \<Rightarrow> error + OpKind" where
  "next_imm [] = Inl StopIteration"
| "next_imm (opk # ops) = (if opk_kind opk = K_IMM then Inr opk else next_imm ops)"

definition imm_refine :: "InstrDesc \<Rightarrow> InstrFlags \<Rightarrow> error + InstrFlags" where
  "imm_refine d f =
     (if 4 \<le> imm_control f then
        (case next_imm (operands d) of
           Inl e \<Rightarrow> Inl e
         | Inr imm_op \<Rightarrow>
            if ''IMM_8'' \<in> flags d \<or> opk_size imm_op = 1 \<or> (opk_size imm_op = SZ_OP \<and> size8 f \<noteq> 0)
            then Inr (f\<lparr>imm_control := imm_control f OR 1\<rparr>) else Inr f)
      else Inr f)"

text \<open>The size-slot step of \<open>encode\<close>, up to the assignment of \<open>size_fix1\<close> and \<open>size_fix2\<close>.\<close>

definition size_slots :: "InstrDesc \<Rightarrow> InstrFlags \<Rightarrow> error + (int list \<times> InstrFlags)" where
  "size_slots d f =
     (case operand_sizes (operands d) of
        Inl e \<Rightarrow> Inl e
      | Inr opsz \<Rightarrow>
         (let fixed = fixed_sizes opsz
          in if 2 < length fixed \<or> (length fixed = 2 \<and> \<not> size_key (fixed ! 1))
             then Inl InvalidFixedOperandSizes
             else (let sizes = take 2 (fixed @ [1, 1]) @ [-2, -3]
                   in Inr (sizes, f\<lparr>size_fix1 := sizes ! 0, size_fix2 := sizes ! 1 - 1\<rparr>))))"

text \<open>The words of the record: \<open>int.from_bytes(enc[i:i+2], "little") for i in range(0, 6, 2)\<close>.\<close>

definition split_words :: "int list \<Rightarrow> int list" where
  "split_words enc = map (\<lambda>i. from_bytes (take 2 (drop i enc))) [0, 2, 4]"

text \<open>The flags of \<open>encode\<close> as they stand just before \<open>flags._encode(6)\<close>.\<close>

definition encode_record :: "InstrDesc \<Rightarrow> error + InstrFlags" where
  "encode_record d =
     (case map_of ENCODINGS (encoding d) of
        None \<Rightarrow> Inl KeyError
      | Some f0 \<Rightarrow>
         (case size_slots d f0 of
            Inl e \<Rightarrow> Inl e
          | Inr (sizes, f1) \<Rightarrow>
             (case set_operands sizes 0 (operands d) f1 of
                Inl e \<Rightarrow> Inl e
              | Inr f2 \<Rightarrow> imm_refine d (misc_flags (flags d) f2))))"

definition encode :: "InstrDesc \<Rightarrow> error + cell list" where
  "encode d =
     (case encode_record d of
        Inl e \<Rightarrow> Inl e
      | Inr f3 \<Rightarrow>
         (case encode_flags f3 6 of
            Inl e \<Rightarrow> Inl e
          | Inr enc \<Rightarrow> Inr (S (''FDI_'' @ mnemonic d) # map I (split_words enc))))"

section \<open>Trie entries\<close>

datatype EntryKind =
  NONE | INSTR | TABLE256 | TABLE8 | TABLE72 | TABLE_PREFIX | TABLE_VEX | TABLE_PREFIX_REP
  | TABLE_ROOT

fun kind_value :: "EntryKind \<Rightarrow> int" where
  "kind_value NONE = 0"
| "kind_value INSTR = 1"
| "kind_value TABLE256 = 2"
| "kind_value TABLE8 = 3"
| "kind_value TABLE72 = 4"
| "kind_value TABLE_PREFIX = 5"
| "kind_value TABLE_VEX = 6"
| "kind_value TABLE_PREFIX_REP = 7"
| "kind_value TABLE_ROOT = -1"

record TrieEntry =
  kind :: EntryKind
  items :: "string option list"
  payload :: "cell list"

fun TABLE_LENGTH :: "EntryKind \<Rightarrow> nat option" where
  "TABLE_LENGTH TABLE256 = Some 256"
| "TABLE_LENGTH TABLE8 = Some 8"
| "TABLE_LENGTH TABLE72 = Some 72"
| "TABLE_LENGTH TABLE_PREFIX = Some 4"
| "TABLE_LENGTH TABLE_VEX = Some 4"
| "TABLE_LENGTH TABLE_PREFIX_REP = Some 4"
| "TABLE_LENGTH TABLE_ROOT = Some 8"
| "TABLE_LENGTH NONE = None"
| "TABLE_LENGTH INSTR = None"

definition table :: "EntryKind \<Rightarrow> error + TrieEntry" where
  "table k =
     (case TABLE_LENGTH k of
        None \<Rightarrow> Inl KeyError
      | Some n \<Rightarrow> Inr \<lparr> kind = k, items = replicate n None, payload = [] \<rparr>)"

definition instr :: "cell list \<Rightarrow> TrieEntry" where
  "instr p = \<lparr> kind = INSTR, items = [], payload = p \<rparr>"

definition encode_length :: "TrieEntry \<Rightarrow> nat" where
  "encode_length e = length (payload e) + length (items e)"

text \<open>
  \<open>encode_item(item) if item else 0\<close>: an absent child and an empty name are both falsy.
\<close>

fun enc_items :: "(string \<Rightarrow> error + int) \<Rightarrow> string option list \<Rightarrow> error + cell list" where
  "enc_items encode_item [] = Inr []"
| "enc_items encode_item (item # its) =
     (case (case item of None \<Rightarrow> Inr 0
                       | Some n \<Rightarrow> if n = [] then Inr 0 else encode_item n) of
        Inl e \<Rightarrow> Inl e
      | Inr w \<Rightarrow> (case enc_items encode_item its of Inl e \<Rightarrow> Inl e | Inr ws \<Rightarrow> Inr (I w # ws)))"

definition entry_encode :: "TrieEntry \<Rightarrow> (string \<Rightarrow> error + int) \<Rightarrow> error + cell list" where
  "entry_encode e encode_item =
     (case enc_items encode_item (items e) of Inl err \<Rightarrow> Inl err | Inr ws \<Rightarrow> Inr (payload e @ ws))"

text \<open>\<open>map\<close> and \<open>update\<close> of \<open>TrieEntry\<close>; \<open>update\<close> compares the position with \<open>idx\<close>.\<close>

definition entry_map :: "(int \<Rightarrow> string option \<Rightarrow> string option) \<Rightarrow> TrieEntry \<Rightarrow> TrieEntry" where
  "entry_map map_func e =
     e\<lparr>items := map (\<lambda>(i, v). map_func (int i) v) (enumerate 0 (items e))\<rparr>"

definition entry_update :: "TrieEntry \<Rightarrow> int \<Rightarrow> string option \<Rightarrow> TrieEntry" where
  "entry_update e idx new_val = entry_map (\<lambda>i v. if i = idx then new_val else v) e"

text \<open>Descriptors of the catalog used as concrete inputs below.\<close>

definition ex_nop :: InstrDesc where
  "ex_nop = \<lparr> mnemonic = ''NOP'', encoding = ''NP'', operands = [], flags = {} \<rparr>"

text \<open>The encoding forms whose table entry sets \<open>imm_control\<close> to 4 or more.\<close>

definition imm_forms :: "string list" where
  "imm_forms = [''MI'', ''MRI'', ''RMI'', ''I'', ''IA'', ''OI'', ''D'', ''RVMI'', ''VMI'']"

definition ex_mi_noimm :: InstrDesc where
  "ex_mi_noimm = \<lparr> mnemonic = ''ADD'', encoding = ''MI'',
     operands = [mkOpKind 1 ''GP''], flags = {} \<rparr>"

definition ex_mi_imm :: InstrDesc where
  "ex_mi_imm = \<lparr> mnemonic = ''ADD'', encoding = ''MI'',
     operands = [mkOpKind 1 ''GP'', mkOpKind 1 K_IMM], flags = {} \<rparr>"

definition ex_mi_sizes_noimm :: InstrDesc where
  "ex_mi_sizes_noimm = \<lparr> mnemonic = ''ADD'', encoding = ''MI'',
     operands = [mkOpKind 1 ''GP'', mkOpKind 2 ''GP'', mkOpKind 4 ''GP''], flags = {} \<rparr>"

definition ex_mi_sizes_imm :: InstrDesc where
  "ex_mi_sizes_imm = \<lparr> mnemonic = ''ADD'', encoding = ''MI'',
     operands = [mkOpKind 1 K_IMM, mkOpKind 2 ''GP'', mkOpKind 4 ''GP''], flags = {} \<rparr>"

section \<open>Strings and numbers\<close>

text \<open>
  Strings are lists of 8-bit characters; the catalog is ASCII. \<open>"%d"\<close> and \<open>"{}"\<close> print an
  integer in decimal, \<open>"{:x}"\<close> in lower-case hexadecimal, and \<open>"{:02x}"\<close> pads with zeros
  to two characters, the sign included.
\<close>

definition hexdigits :: string where
  "hexdigits = ''0123456789abcdef''"

fun digits :: "nat \<Rightarrow> nat \<Rightarrow> string" where
  "digits b n =
     (if b < 2 \<or> n < b then [hexdigits ! n] else digits b (n div b) @ [hexdigits ! (n mod b)])"

declare digits.simps [simp del]

definition str_nat :: "nat \<Rightarrow> string" where
  "str_nat n = digits 10 n"

definition str_int :: "int \<Rightarrow> string" where
  "str_int i = (if i < 0 then CHR ''-'' # digits 10 (nat (- i)) else digits 10 (nat i))"

definition fmt_x :: "int \<Rightarrow> string" where
  "fmt_x i = (if i < 0 then CHR ''-'' # digits 16 (nat (- i)) else digits 16 (nat i))"

definition fmt_02x :: "int \<Rightarrow> string" where
  "fmt_02x i = (let s = fmt_x i in if length s < 2 then CHR ''0'' # s else s)"

text \<open>\<open>int(s, 16)\<close> on a string of the characters \<open>[0-9a-f]\<close>, ValueError otherwise.\<close>

fun hexval :: "char \<Rightarrow> error + int" where
  "hexval c = (case index_of hexdigits c of Inl e \<Rightarrow> Inl ValueError | Inr i \<Rightarrow> Inr i)"

fun int16_acc :: "int \<Rightarrow> string \<Rightarrow> error + int" where
  "int16_acc acc [] = Inr acc"
| "int16_acc acc (c # cs) =
     (case hexval c of Inl e \<Rightarrow> Inl e | Inr v \<Rightarrow> int16_acc (16 * acc + v) cs)"

definition int16 :: "string \<Rightarrow> error + int" where
  "int16 s = (if s = [] then Inl ValueError else int16_acc 0 s)"

text \<open>Python indexing \<open>xs[i]\<close>: a negative index counts from the end, IndexError out of range.\<close>

definition py_get :: "'a list \<Rightarrow> int \<Rightarrow> error + 'a" where
  "py_get xs i =
     (if 0 \<le> i \<and> i < int (length xs) then Inr (xs ! nat i)
      else if i < 0 \<and> - int (length xs) \<le> i then Inr (xs ! nat (int (length xs) + i))
      else Inl IndexError)"

section \<open>The opcode pattern\<close>

text \<open>
  \<open>opcode_regex\<close> is matched with backtracking. Each piece of the pattern is a function
  from the remaining input to the list of its possible matches, in the order in which the
  regex engine tries them; the match of the whole pattern is the first combination that
  reaches the end of the input.
\<close>

fun strip :: "string \<Rightarrow> string \<Rightarrow> string option" where
  "strip [] s = Some s"
| "strip (p # ps) [] = None"
| "strip (p # ps) (c # cs) = (if p = c then strip ps cs else None)"

definition m_lit :: "string \<Rightarrow> string \<Rightarrow> string list" where
  "m_lit p s = (case strip p s of None \<Rightarrow> [] | Some r \<Rightarrow> [r])"

text \<open>An alternation of literals, such as \<open>NP|66|F2|F3\<close>.\<close>

definition m_alt :: "string list \<Rightarrow> string \<Rightarrow> (string \<times> string) list" where
  "m_alt ps s = concat (map (\<lambda>p. map (\<lambda>r. (p, r)) (m_lit p s)) ps)"

text \<open>A character class, such as \<open>[0-7]\<close>, given by its members.\<close>

definition m_class :: "string \<Rightarrow> string \<Rightarrow> (char \<times> string) list" where
  "m_class cls s = (case s of [] \<Rightarrow> [] | c # r \<Rightarrow> if c \<in> set cls then [(c, r)] else [])"

text \<open>The dot: any character but a newline.\<close>

definition m_any :: "string \<Rightarrow> string list" where
  "m_any s = (case s of [] \<Rightarrow> [] | c # r \<Rightarrow> if c = CHR 0x0A then [] else [r])"

text \<open>\<open>(?:W(?P<rexw>[01]|IG)\.)?\<close> and its twin for L: the group, then the empty match.\<close>

definition m_bit :: "string \<Rightarrow> string \<Rightarrow> (string option \<times> string) list" where
  "m_bit letter s =
     concat (map (\<lambda>r1. concat (map (\<lambda>(v, r2). map (\<lambda>r3. (Some v, r3)) (m_lit ''.'' r2))
                                   (m_alt [''0'', ''1'', ''IG''] r1)))
                 (m_lit letter s))
     @ [(None, s)]"

text \<open>The groups of a match that \<open>parse\<close> reads.\<close>

record groups =
  g_vex :: bool
  g_legacy :: "string option"
  g_rexw :: "string option"
  g_vexl :: "string option"
  g_repprefix :: "string option"
  g_opcode :: string
  g_modrm :: "string option"
  g_extended :: bool

definition no_groups :: groups where
  "no_groups = \<lparr> g_vex = False, g_legacy = None, g_rexw = None, g_vexl = None,
     g_repprefix = None, g_opcode = [], g_modrm = None, g_extended = False \<rparr>"

text \<open>\<open>(?P<vex>VEX\.)?(?P<legacy>NP|66|F2|F3)\.(?:W...\.)?(?:L...\.)?\<close>\<close>

definition m_prefixes :: "string \<Rightarrow> (groups \<times> string) list" where
  "m_prefixes s =
     concat (map (\<lambda>(vx, r1).
       concat (map (\<lambda>(leg, r2).
         concat (map (\<lambda>r3.
           concat (map (\<lambda>(w, r4).
             map (\<lambda>(l, r5).
               (no_groups\<lparr>g_vex := vx, g_legacy := Some leg, g_rexw := w, g_vexl := l\<rparr>, r5))
               (m_bit ''L'' r4))
             (m_bit ''W'' r3)))
           (m_lit ''.'' r2)))
         (m_alt [''NP'', ''66'', ''F2'', ''F3''] r1)))
       (map (\<lambda>r. (True, r)) (m_lit ''VEX.'' s) @ [(False, s)]))"

text \<open>\<open>R(?P<repprefix>NP|F2|F3).\<close>, the dot unescaped as in the source.\<close>

definition m_rep :: "string \<Rightarrow> (groups \<times> string) list" where
  "m_rep s =
     concat (map (\<lambda>r1.
       concat (map (\<lambda>(rp, r2). map (\<lambda>r3. (no_groups\<lparr>g_repprefix := Some rp\<rparr>, r3)) (m_any r2))
         (m_alt [''NP'', ''F2'', ''F3''] r1)))
       (m_lit ''R'' s))"

text \<open>The optional first group: the two alternatives, then the empty match.\<close>

definition m_head :: "string \<Rightarrow> (groups \<times> string) list" where
  "m_head s = m_prefixes s @ m_rep s @ [(no_groups, s)]"

text \<open>\<open>(?:[0-9a-f]{2})+\<close>, greedy: the longer runs of pairs come first.\<close>

fun m_opcode :: "string \<Rightarrow> (string \<times> string) list" where
  "m_opcode (a # b # cs) =
     (if a \<in> set hexdigits \<and> b \<in> set hexdigits
      then map (\<lambda>(oc, r). (a # b # oc, r)) (m_opcode cs) @ [([a, b], cs)]
      else [])"
| "m_opcode [a] = []"
| "m_opcode [] = []"

text \<open>\<open>(?P<modrm>//?[0-7]|//[c-f][0-9a-f])?\<close>\<close>

definition m_modrm :: "string \<Rightarrow> (string option \<times> string) list" where
  "m_modrm s =
     concat (map (\<lambda>r1.
       concat (map (\<lambda>(sl, r2). map (\<lambda>(d, r3). (Some (''/'' @ sl @ [d]), r3)) (m_class ''01234567'' r2))
         (map (\<lambda>r. (''/'', r)) (m_lit ''/'' r1) @ [([], r1)])))
       (m_lit ''/'' s))
     @ concat (map (\<lambda>r1.
         concat (map (\<lambda>(c, r2). map (\<lambda>(h, r3). (Some (''//'' @ [c, h]), r3)) (m_class hexdigits r2))
           (m_class ''cdef'' r1)))
         (m_lit ''//'' s))
     @ [(None, s)]"

definition m_extended :: "string \<Rightarrow> (bool \<times> string) list" where
  "m_extended s = map (\<lambda>r. (True, r)) (m_lit ''+'' s) @ [(False, s)]"

text \<open>\<open>$\<close>: the end of the string, or just before a newline that ends it.\<close>

definition at_end :: "string \<Rightarrow> bool" where
  "at_end s \<longleftrightarrow> s = [] \<or> s = [CHR 0x0A]"

definition regex_matches :: "string \<Rightarrow> groups list" where
  "regex_matches s =
     concat (map (\<lambda>(g, r1).
       concat (map (\<lambda>(oc, r2).
         concat (map (\<lambda>(m, r3).
           concat (map (\<lambda>(x, r4).
             if at_end r4 then [g\<lparr>g_opcode := oc, g_modrm := m, g_extended := x\<rparr>] else [])
             (m_extended r3)))
           (m_modrm r2)))
         (m_opcode r1)))
       (m_head s))"

definition regex_match :: "string \<Rightarrow> groups option" where
  "regex_match s = (case regex_matches s of [] \<Rightarrow> None | g # _ \<Rightarrow> Some g)"

record Opcode =
  prefix :: "(bool \<times> int) option"
  escape :: int
  opc :: int
  opcext :: "(bool \<times> int) option"
  extended :: bool
  vex :: bool
  vexl :: "string option"
  rexw :: "string option"

text \<open>\<open>Opcode.parse\<close>; \<open>Inr None\<close> is the \<open>None\<close> returned when the pattern does not match.\<close>

definition parse_opcext :: "string option \<Rightarrow> error + (bool \<times> int) option" where
  "parse_opcext m =
     (case m of
        None \<Rightarrow> Inr None
      | Some ox \<Rightarrow>
         if ox = [] then Inr None
         else (case py_get ox 1 of
                 Inl e \<Rightarrow> Inl e
               | Inr c \<Rightarrow>
                  (let is72 = (c = CHR ''/'')
                   in case int16 (drop (1 + (if is72 then 1 else 0)) ox) of
                        Inl e \<Rightarrow> Inl e
                      | Inr v \<Rightarrow> Inr (Some (is72, v)))))"

definition parse_prefix :: "groups \<Rightarrow> error + (bool \<times> int) option" where
  "parse_prefix g =
     (let pfx = (case g_legacy g of
                   Some l \<Rightarrow> if l \<noteq> [] then Some l else g_repprefix g
                 | None \<Rightarrow> g_repprefix g)
      in case pfx of
           None \<Rightarrow> Inr None
         | Some p \<Rightarrow>
            if p = [] then Inr None
            else (case index_of [''NP'', ''66'', ''F3'', ''F2''] p of
                    Inl e \<Rightarrow> Inl e
                  | Inr i \<Rightarrow> Inr (Some (g_repprefix g \<noteq> None, i))))"

definition parse :: "string \<Rightarrow> error + Opcode option" where
  "parse opcode_string =
     (case regex_match opcode_string of
        None \<Rightarrow> Inr None
      | Some g \<Rightarrow>
         (case parse_opcext (g_modrm g) of
            Inl e \<Rightarrow> Inl e
          | Inr ox \<Rightarrow>
             if g_extended g \<and> (case ox of None \<Rightarrow> False | Some (is72, v) \<Rightarrow> \<not> is72)
             then Inl InvalidOpcodeExtension
             else (case parse_prefix g of
                     Inl e \<Rightarrow> Inl e
                   | Inr pfx \<Rightarrow>
                      (case index_of ['''', ''0f'', ''0f38'', ''0f3a'']
                              (take (length (g_opcode g) - 2) (g_opcode g)) of
                         Inl e \<Rightarrow> Inl e
                       | Inr esc \<Rightarrow>
                          (case int16 (drop (length (g_opcode g) - 2) (g_opcode g)) of
                             Inl e \<Rightarrow> Inl e
                           | Inr oc \<Rightarrow>
                              Inr (Some \<lparr> prefix = pfx, escape = esc, opc = oc, opcext = ox,
                                extended = g_extended g, vex = g_vex g,
                                vexl = g_vexl g, rexw = g_rexw g \<rparr>))))))"

text \<open>A path: the \<open>(kind, byte)\<close> pairs from the root to the instruction.\<close>

type_synonym path = "(EntryKind \<times> int) list"

text \<open>The dictionaries of \<open>for_trie\<close> for the W and the L bit; \<open>x or "IG"\<close> for the key.\<close>

definition or_IG :: "string option \<Rightarrow> string" where
  "or_IG x = (case x of None \<Rightarrow> ''IG'' | Some v \<Rightarrow> if v = [] then ''IG'' else v)"

definition rexw_bits :: "(string \<times> int list) list" where
  "rexw_bits = [(''0'', [0]), (''1'', [push_bit 0 1]), (''IG'', [0, push_bit 0 1])]"

definition vexl_bits :: "(string \<times> int list) list" where
  "vexl_bits = [(''0'', [0]), (''1'', [push_bit 1 1]), (''IG'', [0, push_bit 1 1])]"

definition is_01 :: "string option \<Rightarrow> bool" where
  "is_01 x \<longleftrightarrow> x = Some ''0'' \<or> x = Some ''1''"

text \<open>The levels of \<open>for_trie\<close> before the W/L level, each with its list of values.\<close>

definition trie_levels :: "Opcode \<Rightarrow> (EntryKind \<times> int list) list" where
  "trie_levels self =
     (let opcode0 = [(TABLE_ROOT, [escape self OR push_bit 2 (if vex self then 1 else 0)]),
                     (TABLE256, [opc self])];
          opcode1 = (case opcext self of
                       None \<Rightarrow> opcode0
                     | Some (is72, v) \<Rightarrow>
                        opcode0 @ [(if is72 then TABLE72 else TABLE8,
                                    [v - (if v < 8 then 0 else 0xb8)])]);
          opcode2 = (if extended self
                     then (case last opcode1 of (last_type, last_indices) \<Rightarrow>
                             butlast opcode1
                             @ [(last_type, map (\<lambda>i. hd last_indices + int i) [0..<8])])
                     else opcode1);
          opcode3 = (case prefix self of
                       None \<Rightarrow> opcode2
                     | Some (rep, idx) \<Rightarrow>
                        opcode2 @ [(if rep then TABLE_PREFIX_REP else TABLE_PREFIX, [idx])])
      in opcode3)"

text \<open>\<open>Opcode.for_trie\<close>; \<open>product_lists\<close> is \<open>itertools.product\<close>, first factor slowest.\<close>

definition for_trie :: "Opcode \<Rightarrow> error + path list" where
  "for_trie self =
     (case (if is_01 (vexl self) \<or> is_01 (rexw self)
            then (case map_of rexw_bits (or_IG (rexw self)) of
                    None \<Rightarrow> Inl KeyError
                  | Some rw \<Rightarrow>
                     (case map_of vexl_bits (or_IG (vexl self)) of
                        None \<Rightarrow> Inl KeyError
                      | Some vl \<Rightarrow>
                         Inr (trie_levels self
                              @ [(TABLE_VEX, map sum_list (product_lists [rw, vl]))])))
            else Inr (trie_levels self)) of
        Inl e \<Rightarrow> Inl e
      | Inr opcode \<Rightarrow>
         Inr (map (\<lambda>prod. zip (map fst opcode) prod) (product_lists (map snd opcode))))"

text \<open>\<open>format_opcode\<close>; the accumulator holds \<open>opcode_string\<close> and \<open>prefix\<close>.\<close>

fun format_loop :: "path \<Rightarrow> string \<times> string \<Rightarrow> error + (string \<times> string)" where
  "format_loop [] acc = Inr acc"
| "format_loop ((k, byte) # rest) (opcode_string, pfx) =
     (if k = TABLE_ROOT then
        (case py_get ['''', ''VEX.''] (drop_bit 2 byte) of
           Inl e \<Rightarrow> Inl e
         | Inr v \<Rightarrow>
            format_loop rest
              (opcode_string @ ['''', ''0f'', ''0f38'', ''0f3a''] ! nat (byte AND 3), pfx @ v))
      else if k = TABLE256 then format_loop rest (opcode_string @ fmt_02x byte, pfx)
      else if k = TABLE8 \<or> k = TABLE72 then
        format_loop rest (opcode_string @ ''/'' @ fmt_x byte, pfx)
      else if k = TABLE_PREFIX then
        format_loop rest
          (opcode_string,
           (if byte AND 4 \<noteq> 0 then pfx @ ''VEX.'' else pfx)
           @ [''NP.'', ''66.'', ''F3.'', ''F2.''] ! nat (byte AND 3))
      else if k = TABLE_PREFIX_REP then
        format_loop rest
          (opcode_string, pfx @ [''RNP.'', ''??.'', ''RF3.'', ''RF2.''] ! nat (byte AND 3))
      else if k = TABLE_VEX then
        format_loop rest
          (opcode_string,
           pfx @ ''W'' @ str_int (byte AND 1) @ ''.L'' @ str_int (drop_bit 1 byte) @ ''.'')
      else Inl UnsupportedOpcodeKind)"

definition format_opcode :: "path \<Rightarrow> error + string" where
  "format_opcode opcode =
     (case format_loop opcode ([], []) of
        Inl e \<Rightarrow> Inl e
      | Inr (opcode_string, pfx) \<Rightarrow> Inr (pfx @ opcode_string))"

section \<open>The table\<close>

text \<open>
  A dictionary is a list of pairs with distinct keys, in insertion order, as Python's
  \<open>dict\<close> and \<open>OrderedDict\<close> keep it: an assignment to a new key appends, an assignment
  to a present key replaces the value in place.
\<close>

fun dict_set :: "'k \<Rightarrow> 'v \<Rightarrow> ('k \<times> 'v) list \<Rightarrow> ('k \<times> 'v) list" where
  "dict_set k v [] = [(k, v)]"
| "dict_set k v ((k', v') # d) = (if k' = k then (k, v) # d else (k', v') # dict_set k v d)"

definition dict_get :: "('k \<times> 'v) list \<Rightarrow> 'k \<Rightarrow> error + 'v" where
  "dict_get d k = (case map_of d k of None \<Rightarrow> Inl KeyError | Some v \<Rightarrow> Inr v)"

definition dict_del :: "'k \<Rightarrow> ('k \<times> 'v) list \<Rightarrow> ('k \<times> 'v) list" where
  "dict_del k d = filter (\<lambda>(k', v). k' \<noteq> k) d"

record Table =
  data :: "(string \<times> TrieEntry) list"
  roots :: "string list"
  offsets :: "(string \<times> int) list"
  annotations :: "(int \<times> string) list"

definition root_name :: "nat \<Rightarrow> string" where
  "root_name i = ''root'' @ str_nat i"

text \<open>\<open>TrieEntry.table(EntryKind.TABLE_ROOT)\<close>\<close>

definition root_entry :: TrieEntry where
  "root_entry = \<lparr> kind = TABLE_ROOT, items = replicate 8 None, payload = [] \<rparr>"

text \<open>\<open>Table.__init__\<close>\<close>

definition Table_init :: "nat \<Rightarrow> Table" where
  "Table_init root_count =
     \<lparr> data = fold (\<lambda>i d. dict_set (root_name i) root_entry d) [0..<root_count] [],
       roots = map root_name [0..<root_count],
       offsets = [], annotations = [] \<rparr>"

text \<open>\<open>if x:\<close> on an item: \<open>None\<close> and the empty string are falsy.\<close>

definition truthy :: "string option \<Rightarrow> bool" where
  "truthy x \<longleftrightarrow> (case x of None \<Rightarrow> False | Some n \<Rightarrow> n \<noteq> [])"

text \<open>\<open>Table._update_table\<close>, on the dictionary \<open>self.data\<close>.\<close>

definition update_table ::
  "(string \<times> TrieEntry) list \<Rightarrow> string \<Rightarrow> int \<Rightarrow> string \<Rightarrow> TrieEntry
     \<Rightarrow> error + (string \<times> TrieEntry) list" where
  "update_table d name idx entry_name entry_val =
     (case dict_get d name of
        Inl e \<Rightarrow> Inl e
      | Inr ent \<Rightarrow>
         (case py_get (items ent) idx of
            Inl e \<Rightarrow> Inl e
          | Inr slot \<Rightarrow>
             if truthy slot then Inl SetNotOverriding
             else (let d1 = dict_set entry_name entry_val d
                   in case dict_get d1 name of
                        Inl e \<Rightarrow> Inl e
                      | Inr ent1 \<Rightarrow>
                         Inr (dict_set name (entry_update ent1 idx (Some entry_name)) d1))))"

text \<open>\<open>"t{},{}".format(root_idx, format_opcode(opcode))\<close>\<close>

definition node_name :: "nat \<Rightarrow> path \<Rightarrow> error + string" where
  "node_name root_idx opcode =
     (case format_opcode opcode of
        Inl e \<Rightarrow> Inl e
      | Inr s \<Rightarrow> Inr (''t'' @ str_nat root_idx @ '','' @ s))"

text \<open>
  The loop of \<open>add_opcode\<close> over \<open>range(len(opcode) - 1)\<close>; the state is the dictionary
  and the name \<open>tn\<close> of the current node. The positions \<open>i\<close> and \<open>i + 1\<close> lie inside the
  path for every \<open>i\<close> of that range.
\<close>

fun add_steps ::
  "nat \<Rightarrow> path \<Rightarrow> nat list \<Rightarrow> (string \<times> TrieEntry) list \<times> string
     \<Rightarrow> error + ((string \<times> TrieEntry) list \<times> string)" where
  "add_steps root_idx opcode [] st = Inr st"
| "add_steps root_idx opcode (i # is) (d, prev_tn) =
     (let k = fst (opcode ! (i + 1)); byte = snd (opcode ! i)
      in case dict_get d prev_tn of
           Inl e \<Rightarrow> Inl e
         | Inr ent \<Rightarrow>
            (case py_get (items ent) byte of
               Inl e \<Rightarrow> Inl e
             | Inr slot \<Rightarrow>
                (case (case slot of
                         Some tn \<Rightarrow> Inr (d, tn)
                       | None \<Rightarrow>
                          (case node_name root_idx (take (i + 1) opcode) of
                             Inl e \<Rightarrow> Inl e
                           | Inr tn \<Rightarrow>
                              (case table k of
                                 Inl e \<Rightarrow> Inl e
                               | Inr tbl \<Rightarrow>
                                  (case update_table d prev_tn byte tn tbl of
                                     Inl e \<Rightarrow> Inl e
                                   | Inr d' \<Rightarrow> Inr (d', tn))))) of
                   Inl e \<Rightarrow> Inl e
                 | Inr (d2, tn) \<Rightarrow>
                    (case dict_get d2 tn of
                       Inl e \<Rightarrow> Inl e
                     | Inr ent2 \<Rightarrow>
                        if kind ent2 \<noteq> k then Inl HaveWant
                        else add_steps root_idx opcode is (d2, tn)))))"

text \<open>\<open>Table.add_opcode\<close>\<close>

definition add_opcode :: "Table \<Rightarrow> path \<Rightarrow> cell list \<Rightarrow> nat \<Rightarrow> error + Table" where
  "add_opcode t opcode instr_encoding root_idx =
     (case node_name root_idx opcode of
        Inl e \<Rightarrow> Inl e
      | Inr name \<Rightarrow>
         (case add_steps root_idx opcode [0..<length opcode - 1]
                 (data t, root_name root_idx) of
            Inl e \<Rightarrow> Inl e
          | Inr (d, tn) \<Rightarrow>
             (case py_get opcode (-1) of
                Inl e \<Rightarrow> Inl e
              | Inr lst \<Rightarrow>
                 (case update_table d tn (snd lst) name (instr instr_encoding) of
                    Inl e \<Rightarrow> Inl e
                  | Inr d' \<Rightarrow> Inr (t\<lparr>data := d'\<rparr>)))))"

text \<open>
  One pass of \<open>deduplicate\<close>. The first loop fills \<open>entries\<close> (entry to first name) and
  \<open>synonyms\<close> (name to first name).
\<close>

fun find_synonyms ::
  "(string \<times> TrieEntry) list \<Rightarrow> (TrieEntry \<times> string) list \<Rightarrow> (string \<times> string) list
     \<Rightarrow> (string \<times> string) list" where
  "find_synonyms [] entries synonyms = synonyms"
| "find_synonyms ((name, entry) # rest) entries synonyms =
     (case map_of entries entry of
        Some first \<Rightarrow> find_synonyms rest entries (dict_set name first synonyms)
      | None \<Rightarrow> find_synonyms rest (dict_set entry name entries) synonyms)"

text \<open>\<open>synonyms.get(v, v)\<close>\<close>

definition synonym_of :: "(string \<times> string) list \<Rightarrow> string option \<Rightarrow> string option" where
  "synonym_of synonyms v =
     (case v of
        None \<Rightarrow> None
      | Some n \<Rightarrow> (case map_of synonyms n of None \<Rightarrow> Some n | Some u \<Rightarrow> Some u))"

text \<open>
  The second loop replaces the value of every key of \<open>self.data\<close>; the third deletes the
  keys of \<open>synonyms\<close>, all of which are keys of \<open>self.data\<close>.
\<close>

definition rewrite_items ::
  "(string \<times> string) list \<Rightarrow> (string \<times> TrieEntry) list \<Rightarrow> (string \<times> TrieEntry) list" where
  "rewrite_items synonyms d =
     map (\<lambda>(name, entry). (name, entry_map (\<lambda>_ v. synonym_of synonyms v) entry)) d"

definition dedup_pass :: "(string \<times> TrieEntry) list \<Rightarrow> (string \<times> TrieEntry) list" where
  "dedup_pass d =
     (let synonyms = find_synonyms d [] []
      in fold dict_del (map fst synonyms) (rewrite_items synonyms d))"

text \<open>
  \<open>Table.deduplicate\<close>: the pass is repeated while it found synonyms. A run of the loop
  that never ends is the value \<open>None\<close>.
\<close>

partial_function (option) dedup_loop ::
  "(string \<times> TrieEntry) list \<Rightarrow> (string \<times> TrieEntry) list option" where
  "dedup_loop d =
     (if find_synonyms d [] [] = [] then Some (dedup_pass d) else dedup_loop (dedup_pass d))"

definition deduplicate :: "Table \<Rightarrow> Table option" where
  "deduplicate t = map_option (\<lambda>d. t\<lparr>data := d\<rparr>) (dedup_loop (data t))"

text \<open>\<open>(n + 3) & ~3\<close>\<close>

definition align4 :: "int \<Rightarrow> int" where
  "align4 n = (n + 3) AND NOT 3"

text \<open>The loop of \<open>calc_offsets\<close>; the state is \<open>annotations\<close>, \<open>offsets\<close> and \<open>current\<close>.\<close>

fun calc_loop ::
  "(string \<times> TrieEntry) list \<Rightarrow> (int \<times> string) list \<times> (string \<times> int) list \<times> int
     \<Rightarrow> (int \<times> string) list \<times> (string \<times> int) list \<times> int" where
  "calc_loop [] st = st"
| "calc_loop ((name, entry) # rest) (ann, offs, current) =
     calc_loop rest
       (dict_set current (name @ ''('' @ str_int (kind_value (kind entry)) @ '')'') ann,
        dict_set name current offs,
        current + align4 (int (encode_length entry)))"

definition calc_offsets :: "Table \<Rightarrow> error + Table" where
  "calc_offsets t =
     (case calc_loop (data t) (annotations t, offsets t, 0) of
        (ann, offs, current) \<Rightarrow>
          if 0x8000 \<le> current then Inl MaximumTableSizeExceeded
          else Inr (t\<lparr>annotations := ann, offsets := offs\<rparr>))"

text \<open>\<open>Table.encode_item\<close>\<close>

definition encode_item :: "Table \<Rightarrow> string \<Rightarrow> error + int" where
  "encode_item t name =
     (case dict_get (offsets t) name of
        Inl e \<Rightarrow> Inl e
      | Inr off \<Rightarrow>
         (case dict_get (data t) name of
            Inl e \<Rightarrow> Inl e
          | Inr ent \<Rightarrow> Inr (push_bit 1 off OR kind_value (kind ent))))"

text \<open>\<open>(off, self.data[k]) for k, off in self.offsets.items()\<close>\<close>

fun offset_entries ::
  "(string \<times> TrieEntry) list \<Rightarrow> (string \<times> int) list \<Rightarrow> error + (int \<times> TrieEntry) list" where
  "offset_entries d [] = Inr []"
| "offset_entries d ((k, off) # rest) =
     (case dict_get d k of
        Inl e \<Rightarrow> Inl e
      | Inr ent \<Rightarrow>
         (case offset_entries d rest of Inl e \<Rightarrow> Inl e | Inr xs \<Rightarrow> Inr ((off, ent) # xs)))"

text \<open>
  \<open>sorted\<close> on the pairs \<open>(off, entry)\<close>. Pairs with different offsets are ordered by the
  offset. Two pairs with the same offset are compared by their entries, and entries of
  different kinds are not ordered: comparing two \<open>EntryKind\<close> members raises TypeError.
  Offsets laid out by \<open>calc_offsets\<close> coincide only behind an entry of encode length 0,
  which then is the smaller one among entries of its kind, so the stable order stands.
\<close>

definition sorted_entries :: "(int \<times> TrieEntry) list \<Rightarrow> error + (int \<times> TrieEntry) list" where
  "sorted_entries xs =
     (let ys = sort_key fst xs
      in if list_ex (\<lambda>(a, b). fst a = fst b \<and> kind (snd a) \<noteq> kind (snd b)) (zip ys (tl ys))
         then Inl TypeError else Inr ys)"

text \<open>The loop of \<open>compile\<close> that builds \<open>data\<close>, the table of words.\<close>

fun emit :: "Table \<Rightarrow> (int \<times> TrieEntry) list \<Rightarrow> cell list \<Rightarrow> error + cell list" where
  "emit t [] blob = Inr blob"
| "emit t ((off, entry) # rest) blob =
     (case entry_encode entry (encode_item t) of
        Inl e \<Rightarrow> Inl e
      | Inr ws \<Rightarrow> emit t rest (blob @ replicate (nat (off - int (length blob))) (I 0) @ ws))"

text \<open>\<open>[self.offsets[k] for k in self.roots]\<close>\<close>

fun root_offsets :: "(string \<times> int) list \<Rightarrow> string list \<Rightarrow> error + int list" where
  "root_offsets offs [] = Inr []"
| "root_offsets offs (k # ks) =
     (case dict_get offs k of
        Inl e \<Rightarrow> Inl e
      | Inr off \<Rightarrow>
         (case root_offsets offs ks of Inl e \<Rightarrow> Inl e | Inr os \<Rightarrow> Inr (off # os)))"

text \<open>\<open>Table.compile\<close>, without the statistics it prints.\<close>

definition compile :: "Table \<Rightarrow> error + (cell list \<times> (int \<times> string) list \<times> int list)" where
  "compile t =
     (case calc_offsets t of
        Inl e \<Rightarrow> Inl e
      | Inr t1 \<Rightarrow>
         (case offset_entries (data t1) (offsets t1) of
            Inl e \<Rightarrow> Inl e
          | Inr pairs \<Rightarrow>
             (case sorted_entries pairs of
                Inl e \<Rightarrow> Inl e
              | Inr ordered \<Rightarrow>
                 (case emit t1 ordered [] of
                    Inl e \<Rightarrow> Inl e
                  | Inr blob \<Rightarrow>
                     (case root_offsets (offsets t1) (roots t1) of
                        Inl e \<Rightarrow> Inl e
                      | Inr ros \<Rightarrow> Inr (blob, annotations t1, ros))))))"

section \<open>The main program\<close>

text \<open>
  The loops of the main program after the catalog is read: \<open>entries\<close> pairs each parsed
  opcode (or \<open>None\<close>) with its descriptor, \<open>modes\<close> is \<open>args.modes\<close>.
\<close>

fun add_paths :: "Table \<Rightarrow> path list \<Rightarrow> InstrDesc \<Rightarrow> nat \<Rightarrow> error + Table" where
  "add_paths t [] desc i = Inr t"
| "add_paths t (opcode_path # ps) desc i =
     (case encode desc of
        Inl e \<Rightarrow> Inl e
      | Inr enc \<Rightarrow>
         (case add_opcode t opcode_path enc i of
            Inl e \<Rightarrow> Inl e
          | Inr t' \<Rightarrow> add_paths t' ps desc i))"

text \<open>\<open>"ONLY%d" % (96 - mode) not in desc.flags\<close>\<close>

definition mode_selected :: "int \<Rightarrow> string set \<Rightarrow> bool" where
  "mode_selected mode fl \<longleftrightarrow> (''ONLY'' @ str_int (96 - mode)) \<notin> fl"

fun add_modes ::
  "Table \<Rightarrow> Opcode option \<Rightarrow> InstrDesc \<Rightarrow> (nat \<times> int) list \<Rightarrow> error + Table" where
  "add_modes t opcode desc [] = Inr t"
| "add_modes t opcode desc ((i, mode) # ms) =
     (if mode_selected mode (flags desc) then
        (case opcode of
           None \<Rightarrow> Inl AttributeError
         | Some oc \<Rightarrow>
            (case for_trie oc of
               Inl e \<Rightarrow> Inl e
             | Inr paths \<Rightarrow>
                (case add_paths t paths desc i of
                   Inl e \<Rightarrow> Inl e
                 | Inr t' \<Rightarrow> add_modes t' opcode desc ms)))
      else add_modes t opcode desc ms)"

fun add_entries ::
  "Table \<Rightarrow> (Opcode option \<times> InstrDesc) list \<Rightarrow> int list \<Rightarrow> error + Table" where
  "add_entries t [] modes = Inr t"
| "add_entries t ((opcode, desc) # es) modes =
     (case add_modes t opcode desc (enumerate 0 modes) of
        Inl e \<Rightarrow> Inl e
      | Inr t' \<Rightarrow> add_entries t' es modes)"

definition build :: "int list \<Rightarrow> (Opcode option \<times> InstrDesc) list \<Rightarrow> error + Table" where
  "build modes entries = add_entries (Table_init (length modes)) entries modes"

declare dedup_loop.simps [code]


text \<open>
  For comparison with the loop over the modes: the insertion of one line into one root,
  and into each root of a list in turn.
\<close>

definition insert_line :: "Table \<Rightarrow> Opcode option \<Rightarrow> InstrDesc \<Rightarrow> nat \<Rightarrow> error + Table" where
  "insert_line t opcode desc i =
     (case opcode of
        None \<Rightarrow> Inl AttributeError
      | Some oc \<Rightarrow>
         (case for_trie oc of Inl e \<Rightarrow> Inl e | Inr paths \<Rightarrow> add_paths t paths desc i))"

fun insert_roots :: "Table \<Rightarrow> Opcode option \<Rightarrow> InstrDesc \<Rightarrow> nat list \<Rightarrow> error + Table" where
  "insert_roots t opcode desc [] = Inr t"
| "insert_roots t opcode desc (i # is) =
     (case insert_line t opcode desc i of
        Inl e \<Rightarrow> Inl e
      | Inr t' \<Rightarrow> insert_roots t' opcode desc is)"

text \<open>The opcode of \<open>90\<close> and descriptors of \<open>NOP\<close> with mode flags.\<close>

definition ex_opc_90 :: Opcode where
  "ex_opc_90 = \<lparr> prefix = None, escape = 0, opc = 144, opcext = None, extended = False,
     vex = False, vexl = None, rexw = None \<rparr>"

definition ex_nop_only32 :: InstrDesc where
  "ex_nop_only32 = ex_nop\<lparr>flags := {''ONLY32''}\<rparr>"

definition ex_nop_both :: InstrDesc where
  "ex_nop_both = ex_nop\<lparr>flags := {''ONLY32'', ''ONLY64''}\<rparr>"

text \<open>
  The size of the layout in 16-bit words: every node takes its encode length rounded up to
  a multiple of four words.
\<close>

definition layout_words :: "(string \<times> TrieEntry) list \<Rightarrow> int" where
  "layout_words d = sum_list (map (\<lambda>(name, entry). align4 (int (encode_length entry))) d)"

text \<open>Observations on results, used to state concrete facts.\<close>

definition no_item :: "string \<Rightarrow> error + int" where
  "no_item name = Inl KeyError"

definition node_names :: "error + Table \<Rightarrow> string list" where
  "node_names r = (case r of Inl e \<Rightarrow> [] | Inr t \<Rightarrow> map fst (data t))"


text \<open>The size of all nodes in bytes, two per word, without padding.\<close>

definition encoded_bytes :: "(string \<times> TrieEntry) list \<Rightarrow> int" where
  "encoded_bytes d = sum_list (map (\<lambda>(name, entry). 2 * int (encode_length entry)) d)"

text \<open>
  The lines of the main program after \<open>table.compile()\<close> that make the root-offset
  constants: \<open>"FD_TABLE_OFFSET_%d %d" % k for k in zip(args.modes, root_offsets)\<close>.
\<close>

definition defines_lines :: "int list \<Rightarrow> int list \<Rightarrow> string list" where
  "defines_lines modes ros =
     map (\<lambda>(mode, off). ''FD_TABLE_OFFSET_'' @ str_int mode @ '' '' @ str_int off) (zip modes ros)"

text \<open>
  The main program from the parsed entries to the compiled table: build, deduplicate,
  compile. \<open>None\<close> stands for a deduplication that does not end.
\<close>

definition generate ::
  "int list \<Rightarrow> (Opcode option \<times> InstrDesc) list
     \<Rightarrow> (error + (cell list \<times> (int \<times> string) list \<times> int list)) option" where
  "generate modes entries =
     (case build modes entries of
        Inl e \<Rightarrow> Some (Inl e)
      | Inr t \<Rightarrow> map_option compile (deduplicate t))"

text \<open>Observations on a generated table: the words, and the root-offset constants.\<close>

definition table_words ::
  "(error + (cell list \<times> (int \<times> string) list \<times> int list)) option \<Rightarrow> cell list" where
  "table_words r = (case r of Some (Inr (blob, ann, ros)) \<Rightarrow> blob | _ \<Rightarrow> [])"

definition table_defines ::
  "int list \<Rightarrow> (error + (cell list \<times> (int \<times> string) list \<times> int list)) option \<Rightarrow> string list" where
  "table_defines modes r = (case r of Some (Inr (blob, ann, ros)) \<Rightarrow> defines_lines modes ros | _ \<Rightarrow> [])"

text \<open>
  Where the layout puts each node: at the sum of the sizes of the nodes before it,
  counted in words from \<open>c\<close>.
\<close>

fun node_offsets :: "(string \<times> TrieEntry) list \<Rightarrow> int \<Rightarrow> (string \<times> int) list" where
  "node_offsets [] c = []"
| "node_offsets ((name, entry) # rest) c =
     (name, c) # node_offsets rest (c + align4 (int (encode_length entry)))"

text \<open>Two lines that fill the 32-bit and the 64-bit root differently.\<close>

definition ex_opc_0f05 :: Opcode where
  "ex_opc_0f05 = \<lparr> prefix = None, escape = 1, opc = 5, opcext = None, extended = False,
     vex = False, vexl = None, rexw = None \<rparr>"

definition ex_syscall_only64 :: InstrDesc where
  "ex_syscall_only64 = \<lparr> mnemonic = ''SYSCALL'', encoding = ''NP'', operands = [],
     flags = {''ONLY64''} \<rparr>"

definition ex_two_modes :: "(Opcode option \<times> InstrDesc) list" where
  "ex_two_modes = [(Some ex_opc_90, ex_nop_only32), (Some ex_opc_0f05, ex_syscall_only64)]"

section \<open>Conflicts of an insertion\<close>

text \<open>
  What the specification calls a conflict, read off the table before the insertion.
  \<open>slot d tn b\<close> is the child in slot \<open>b\<close> of the node \<open>tn\<close>. Walking the path from a
  node, an insertion conflicts if a child on the way has another kind than the path
  demands next, or if the slot of the last step is occupied; it does not conflict as
  soon as a child on the way is absent.
\<close>

definition slot :: "(string \<times> TrieEntry) list \<Rightarrow> string \<Rightarrow> int \<Rightarrow> string option" where
  "slot d tn b =
     (case map_of d tn of
        None \<Rightarrow> None
      | Some e \<Rightarrow> if 0 \<le> b \<and> b < int (length (items e)) then items e ! nat b else None)"

fun conflict :: "(string \<times> TrieEntry) list \<Rightarrow> string \<Rightarrow> path \<Rightarrow> bool" where
  "conflict d tn [] = False"
| "conflict d tn [(k, b)] = (slot d tn b \<noteq> None)"
| "conflict d tn ((k, b) # (k', b') # rest) =
     (case slot d tn b of
        None \<Rightarrow> False
      | Some c \<Rightarrow>
         (case map_of d c of
            None \<Rightarrow> False
          | Some e \<Rightarrow> kind e \<noteq> k' \<or> conflict d c ((k', b') # rest)))"

text \<open>The number of steps of the path, the last one apart, whose child is present.\<close>

fun existing_depth :: "(string \<times> TrieEntry) list \<Rightarrow> string \<Rightarrow> path \<Rightarrow> nat" where
  "existing_depth d tn [] = 0"
| "existing_depth d tn [(k, b)] = 0"
| "existing_depth d tn ((k, b) # (k', b') # rest) =
     (case slot d tn b of
        None \<Rightarrow> 0
      | Some c \<Rightarrow> Suc (existing_depth d c ((k', b') # rest)))"

text \<open>
  A well-formed path starts at the root level, has no other root level, and each of its
  bytes lies within the fan-out of its table kind.
\<close>

definition wf_path :: "path \<Rightarrow> bool" where
  "wf_path p \<longleftrightarrow>
     p \<noteq> [] \<and> fst (hd p) = TABLE_ROOT
     \<and> list_all (\<lambda>(k, b). case TABLE_LENGTH k of None \<Rightarrow> False
                                               | Some len \<Rightarrow> 0 \<le> b \<and> b < int len) p
     \<and> list_all (\<lambda>(k, b). k \<noteq> TABLE_ROOT) (tl p)"

text \<open>
  A well-formed table: distinct names; every table node has as many slots as its kind
  says and an instruction node has none; every child is a non-empty name of a node.
\<close>

definition wf_table :: "(string \<times> TrieEntry) list \<Rightarrow> bool" where
  "wf_table d \<longleftrightarrow>
     distinct (map fst d)
     \<and> list_all (\<lambda>(n, e).
          (case TABLE_LENGTH (kind e) of
             None \<Rightarrow> items e = []
           | Some len \<Rightarrow> length (items e) = len)
          \<and> list_all (\<lambda>c. case c of None \<Rightarrow> True
                                    | Some n' \<Rightarrow> n' \<noteq> [] \<and> map_of d n' \<noteq> None) (items e)) d"

definition has_root :: "(string \<times> TrieEntry) list \<Rightarrow> nat \<Rightarrow> bool" where
  "has_root d r \<longleftrightarrow> (case map_of d (root_name r) of None \<Rightarrow> False | Some e \<Rightarrow> kind e = TABLE_ROOT)"

text \<open>The names that the insertion gives to the nodes it creates are not in the table.\<close>

definition fresh_names :: "(string \<times> TrieEntry) list \<Rightarrow> nat \<Rightarrow> path \<Rightarrow> bool" where
  "fresh_names d r p \<longleftrightarrow>
     list_all (\<lambda>j. case node_name r (take (Suc j) p) of
                      Inl e \<Rightarrow> True
                    | Inr n \<Rightarrow> map_of d n = None)
       [existing_depth d (root_name r) p ..< length p]"

section \<open>Properties of the descriptor encoder\<close>

lemma field_mask: "(v::int) AND (push_bit sz 1 - 1) = v mod 2 ^ sz"
  by (simp flip: mask_eq_exp_minus_1 take_bit_eq_mask take_bit_eq_mod)

lemma pack_bounds:
  "0 \<le> pack off fs \<and> pack off fs < 2 ^ (off + sum_list (map snd fs)) \<and> 2 ^ off dvd pack off fs"
proof (induction fs arbitrary: off)
  case Nil
  then show ?case by simp
next
  case (Cons a fs)
  obtain v sz where a: "a = (v, sz)" by (cases a)
  define m where "m = v mod 2 ^ sz"
  define r where "r = pack (off + sz) fs"
  define T where "T = sum_list (map snd fs)"
  have m: "0 \<le> m" "m < 2 ^ sz" by (simp_all add: m_def)
  from Cons.IH [of "off + sz"] have r: "0 \<le> r" "r < 2 ^ (off + sz + T)" "2 ^ (off + sz) dvd r"
    by (simp_all add: r_def T_def)
  from r(3) obtain k where k: "r = 2 ^ (off + sz) * k" by (auto simp: dvd_def)
  have p: "pack off (a # fs) = 2 ^ off * m + r"
    unfolding a pack.simps field_mask by (simp add: m_def r_def push_bit_eq_mult mult.commute)
  have k1: "k < 2 ^ T"
  proof (rule ccontr)
    assume "\<not> k < 2 ^ T"
    then have "(2::int) ^ T \<le> k" by simp
    then have "(2::int) ^ (off + sz) * 2 ^ T \<le> 2 ^ (off + sz) * k"
      by (intro mult_left_mono) simp_all
    with r(2) k show False by (simp add: power_add)
  qed
  then have k2: "k + 1 \<le> 2 ^ T" by simp
  have "2 ^ off * m + r < 2 ^ off * 2 ^ sz + 2 ^ (off + sz) * k"
    using m(2) k by simp
  also have "\<dots> = 2 ^ (off + sz) * (k + 1)" by (simp add: power_add algebra_simps)
  also have "\<dots> \<le> 2 ^ (off + sz) * 2 ^ T" using k2 by (intro mult_left_mono) simp_all
  finally have up: "2 ^ off * m + r < 2 ^ (off + sz + T)" by (simp add: power_add)
  have dv: "2 ^ off dvd 2 ^ off * m + r"
    using k by (simp add: power_add)
  have "0 \<le> 2 ^ off * m + r" using m(1) r(1) by simp
  moreover have s: "off + sum_list (map snd (a # fs)) = off + sz + T" by (simp add: a T_def)
  ultimately show ?case unfolding p s using up dv by blast
qed

lemma pack_flags_range: "0 \<le> pack 0 (flag_fields f)" "pack 0 (flag_fields f) < 256 ^ 6"
proof -
  have s: "sum_list (map snd (flag_fields f)) = 48" by (simp add: flag_fields_def)
  from pack_bounds [of 0 "flag_fields f"] show "0 \<le> pack 0 (flag_fields f)" by simp
  from pack_bounds [of 0 "flag_fields f"] have "pack 0 (flag_fields f) < 2 ^ 48"
    unfolding s by simp
  then show "pack 0 (flag_fields f) < 256 ^ 6" by simp
qed

lemma words_sum:
  "n mod 65536 + 65536 * (n div 65536 mod 65536) + 4294967296 * (n div 4294967296) = (n::int)"
proof -
  define q where "q = n div 65536"
  have "n div 4294967296 = q div 65536"
    unfolding q_def by (simp add: div_mult2_eq [symmetric])
  moreover have "q mod 65536 + 65536 * (q div 65536) = q" by simp
  moreover have "n mod 65536 + 65536 * q = n" unfolding q_def by simp
  ultimately show ?thesis unfolding q_def [symmetric] by linarith
qed

lemma to_bytes_6:
  assumes "0 \<le> n" "n < 256 ^ 6"
  shows "to_bytes n 6 = Inr [n mod 256, n div 256 mod 256, n div 65536 mod 256,
     n div 16777216 mod 256, n div 4294967296 mod 256, n div 1099511627776 mod 256]"
proof -
  have "[0..<6] = [0, 1, 2, 3, 4, 5]" by (simp add: upt_rec)
  with assms show ?thesis by (simp add: to_bytes_def)
qed

lemma two_bytes: "m mod 256 + 256 * (m div 256 mod 256) = (m::int) mod 65536"
  using zmod_zmult2_eq [of 256 m 256] by simp

lemma split_words_to_bytes:
  assumes "0 \<le> n" "n < 256 ^ 6" "to_bytes n 6 = Inr bs"
  shows "split_words bs = [n mod 65536, n div 65536 mod 65536, n div 4294967296 mod 65536]"
proof -
  have a: "n div 16777216 = n div 65536 div 256" "n div 1099511627776 = n div 4294967296 div 256"
    by (simp_all add: div_mult2_eq [symmetric])
  have bs: "bs = [n mod 256, n div 256 mod 256, n div 65536 mod 256,
     n div 65536 div 256 mod 256, n div 4294967296 mod 256, n div 4294967296 div 256 mod 256]"
    using assms(3) unfolding to_bytes_6 [OF assms(1,2)] a by simp
  show ?thesis unfolding bs split_words_def
    by (simp only: list.map drop_Suc_Cons take_Suc_Cons numeral_2_eq_2 numeral_eq_Suc pred_numeral_simps
        drop_0 take_0 from_bytes.simps)
      (simp add: two_bytes)
qed


text \<open>
  C1 (as amended). Whenever \<open>encode\<close> returns, the payload has four words: the mnemonic
  tag \<open>FDI_<mnemonic>\<close> comes first, and the three words after it are the 16-bit
  little-endian words of the 48-bit record packed from the final flags. An \<open>INSTR\<close>
  node built from this payload serializes to the payload itself, so the tag is the
  first word of the node and the record words are the second to fourth.
\<close>

theorem encode_tag_first:
  assumes "encode d = Inr p"
  shows "\<exists>f w0 w1 w2. encode_record d = Inr f
     \<and> p = [S (''FDI_'' @ mnemonic d), I w0, I w1, I w2]
     \<and> w0 + 65536 * w1 + 4294967296 * w2 = pack 0 (flag_fields f)
     \<and> (\<forall>w \<in> {w0, w1, w2}. 0 \<le> w \<and> w < 65536)
     \<and> entry_encode (instr p) f_item = Inr p"
proof -
  from assms obtain f where f: "encode_record d = Inr f"
    by (cases "encode_record d") (simp_all add: encode_def)
  define n where "n = pack 0 (flag_fields f)"
  have n: "0 \<le> n" "n < 256 ^ 6" unfolding n_def by (rule pack_flags_range)+
  obtain bs where bs: "to_bytes n 6 = Inr bs" using n by (simp add: to_bytes_def)
  have ef: "encode_flags f 6 = Inr bs" using bs by (simp add: encode_flags_def n_def)
  define w0 where "w0 = n mod 65536"
  define w1 where "w1 = n div 65536 mod 65536"
  define w2 where "w2 = n div 4294967296 mod 65536"
  have sw: "split_words bs = [w0, w1, w2]"
    unfolding w0_def w1_def w2_def by (rule split_words_to_bytes [OF n bs])
  have "encode d = Inr (S (''FDI_'' @ mnemonic d) # map I (split_words bs))"
    by (simp add: encode_def f ef)
  with assms have p: "p = [S (''FDI_'' @ mnemonic d), I w0, I w1, I w2]"
    by (simp add: sw)
  have d2: "n div 4294967296 < 65536" using n by simp
  have d3: "0 \<le> n div 4294967296" using n by simp
  have "w2 = n div 4294967296" unfolding w2_def using d2 d3 by simp
  then have sum: "w0 + 65536 * w1 + 4294967296 * w2 = pack 0 (flag_fields f)"
    using words_sum [of n] by (simp add: w0_def w1_def n_def)
  have rng: "\<forall>w \<in> {w0, w1, w2}. 0 \<le> w \<and> w < 65536"
    by (simp add: w0_def w1_def w2_def)
  have enc: "entry_encode (instr p) f_item = Inr p"
    by (simp add: entry_encode_def instr_def)
  from f p sum rng enc show ?thesis by blast
qed

theorem encode_tag_first_witness:
  "encode ex_nop = Inr [S ''FDI_NOP'', I 0, I 1024, I 0]
   \<and> (\<exists>f w0 w1 w2. encode_record ex_nop = Inr f
     \<and> [S ''FDI_NOP'', I 0, I 1024, I 0] = [S (''FDI_'' @ mnemonic ex_nop), I w0, I w1, I w2]
     \<and> w0 + 65536 * w1 + 4294967296 * w2 = pack 0 (flag_fields f)
     \<and> (\<forall>w \<in> {w0, w1, w2}. 0 \<le> w \<and> w < 65536)
     \<and> entry_encode (instr [S ''FDI_NOP'', I 0, I 1024, I 0]) no_item
         = Inr [S ''FDI_NOP'', I 0, I 1024, I 0])"
proof -
  have e: "encode ex_nop = Inr [S ''FDI_NOP'', I 0, I 1024, I 0]" by code_simp
  show ?thesis by (rule conjI [OF e encode_tag_first [OF e]])
qed

text \<open>
  C1 as stated fails: for the line \<open>90 NP - - - - NOP\<close> the serialized \<open>INSTR\<close> node
  starts with the tag, and its fourth word is the last record word, not the tag.
\<close>

theorem instr_tag_last_counterexample:
  "encode ex_nop = Inr [S ''FDI_NOP'', I 0, I 1024, I 0]
   \<and> entry_encode (instr [S ''FDI_NOP'', I 0, I 1024, I 0]) no_item
       = Inr [S ''FDI_NOP'', I 0, I 1024, I 0]
   \<and> [S ''FDI_NOP'', I 0, I 1024, I 0] ! 0 = S ''FDI_NOP''
   \<and> [S ''FDI_NOP'', I 0, I 1024, I 0] ! 3 = I 0"
  by code_simp

lemma imm_control_set_op: "imm_control (set_op_size i v f) = imm_control f"
  "imm_control (set_op_regty i v f) = imm_control f"
  by (simp_all add: set_op_size_def set_op_regty_def)

lemma imm_control_set_operands:
  "set_operands sizes i ops f = Inr f' \<Longrightarrow> imm_control f' = imm_control f"
proof (induction sizes i ops f rule: set_operands.induct)
  case (1 sizes i f)
  then show ?case by simp
next
  case (2 sizes i opkind ops f)
  from "2.prems" obtain sz where sz: "map_of OPKIND_SIZES (opk_size opkind) = Some sz"
    by (cases "map_of OPKIND_SIZES (opk_size opkind)") simp_all
  from "2.prems" sz obtain idx where idx: "index_of sizes sz = Inr idx"
    by (cases "index_of sizes sz") (simp_all add: Let_def)
  define rt where "rt = (case map_of OPKIND_REGTYS (opk_kind opkind) of None \<Rightarrow> 7 | Some r \<Rightarrow> r)"
  show ?case
  proof (cases "i < 3")
    case True
    with "2.prems" sz idx have "set_operands sizes (Suc i) ops (set_op_regty i rt (set_op_size i idx f)) = Inr f'"
      by (simp add: Let_def rt_def)
    from "2.IH"(1) [OF sz rt_def idx refl True this] show ?thesis
      by (simp add: imm_control_set_op)
  next
    case False
    with "2.prems" sz idx have ok: "\<not> (rt \<noteq> 7 \<and> rt \<noteq> 2)"
      and r: "set_operands sizes (Suc i) ops (set_op_size i idx f) = Inr f'"
      by (auto simp: Let_def rt_def split: if_splits)
    from "2.IH"(2) [OF sz rt_def idx refl False ok r] show ?thesis
      by (simp add: imm_control_set_op)
  qed
qed

lemma imm_control_size_slots:
  "size_slots d f = Inr (sizes, f') \<Longrightarrow> imm_control f' = imm_control f"
  by (cases "operand_sizes (operands d)") (auto simp: size_slots_def Let_def split: if_splits)

lemma imm_control_misc: "imm_control (misc_flags fl f) = imm_control f"
  by (simp add: misc_flags_def Let_def)

lemma next_imm_none: "(\<forall>op \<in> set ops. opk_kind op \<noteq> K_IMM) \<Longrightarrow> next_imm ops = Inl StopIteration"
  by (induction ops) auto

lemma next_imm_some: "(\<exists>op \<in> set ops. opk_kind op = K_IMM) \<Longrightarrow> \<exists>opk. next_imm ops = Inr opk"
  by (induction ops) auto


lemma forms_table:
  "list_all (\<lambda>(e, f). (4 \<le> imm_control f) = (e \<in> set imm_forms)) ENCODINGS"
  by code_simp

lemma forms_dom: "list_all (\<lambda>e. \<exists>f. map_of ENCODINGS e = Some f) imm_forms"
  by (simp add: imm_forms_def ENCODINGS_def)

lemma distinct_ENCODINGS: "distinct (map fst ENCODINGS)"
  by code_simp

lemma imm_forms_iff:
  "(\<exists>f. map_of ENCODINGS e = Some f \<and> 4 \<le> imm_control f) \<longleftrightarrow> e \<in> set imm_forms"
proof
  assume "\<exists>f. map_of ENCODINGS e = Some f \<and> 4 \<le> imm_control f"
  then obtain f where f: "map_of ENCODINGS e = Some f" "4 \<le> imm_control f" by blast
  from f(1) have "(e, f) \<in> set ENCODINGS" by (rule map_of_SomeD)
  with forms_table have "(4 \<le> imm_control f) = (e \<in> set imm_forms)"
    by (auto simp: list_all_iff)
  with f(2) show "e \<in> set imm_forms" by simp
next
  assume e: "e \<in> set imm_forms"
  with forms_dom obtain f where f: "map_of ENCODINGS e = Some f" by (auto simp: list_all_iff)
  then have "(e, f) \<in> set ENCODINGS" by (rule map_of_SomeD)
  with forms_table have "(4 \<le> imm_control f) = (e \<in> set imm_forms)"
    by (auto simp: list_all_iff)
  with e f show "\<exists>f. map_of ENCODINGS e = Some f \<and> 4 \<le> imm_control f" by simp
qed

lemma encode_flags_total: "\<exists>bs. encode_flags f 6 = Inr bs"
  using pack_flags_range [of f] by (simp add: encode_flags_def to_bytes_def)

lemma imm_refine_some:
  assumes "next_imm (operands d) = Inr opk"
  shows "\<exists>f'. imm_refine d f = Inr f'"
  using assms by (simp add: imm_refine_def)

lemma imm_refine_none:
  assumes "next_imm (operands d) = Inl StopIteration" "4 \<le> imm_control f"
  shows "imm_refine d f = Inl StopIteration"
  using assms by (simp add: imm_refine_def)


text \<open>
  C10 (as amended). Take a descriptor whose encoding form sets \<open>imm_control\<close> to 4 or more
  (the form is then one of MI, MRI, RMI, I, IA, OI, D, RVMI, VMI) and for which the steps
  of \<open>encode\<close> before the immediate refinement, the size slots and the operand loop with
  its register-type check, do not raise. If no operand has category \<open>IMM\<close>, \<open>encode\<close>
  raises StopIteration from \<open>next\<close>; if some operand has, \<open>encode\<close> returns a payload.
\<close>

theorem encode_imm_search:
  assumes enc: "map_of ENCODINGS (encoding d) = Some f0" and ic: "4 \<le> imm_control f0"
    and ss: "size_slots d f0 = Inr (sizes, f1)"
    and so: "set_operands sizes 0 (operands d) f1 = Inr f2"
  shows "encoding d \<in> set imm_forms
     \<and> ((\<forall>op \<in> set (operands d). opk_kind op \<noteq> K_IMM) \<longrightarrow> encode d = Inl StopIteration)
     \<and> ((\<exists>op \<in> set (operands d). opk_kind op = K_IMM) \<longrightarrow> (\<exists>p. encode d = Inr p))"
proof -
  have c: "4 \<le> imm_control (misc_flags (flags d) f2)"
    using ic imm_control_set_operands [OF so] imm_control_size_slots [OF ss]
    by (simp add: imm_control_misc)
  have er: "encode_record d = imm_refine d (misc_flags (flags d) f2)"
    by (simp add: encode_record_def enc ss so)
  have 1: "encoding d \<in> set imm_forms" using imm_forms_iff enc ic by blast
  have 2: "encode d = Inl StopIteration" if "\<forall>op \<in> set (operands d). opk_kind op \<noteq> K_IMM"
  proof -
    from that have "next_imm (operands d) = Inl StopIteration" by (rule next_imm_none)
    from imm_refine_none [OF this c] show ?thesis by (simp add: encode_def er)
  qed
  have 3: "\<exists>p. encode d = Inr p" if "\<exists>op \<in> set (operands d). opk_kind op = K_IMM"
  proof -
    from that obtain opk where "next_imm (operands d) = Inr opk" using next_imm_some by blast
    from imm_refine_some [OF this] obtain f3 where f3: "encode_record d = Inr f3"
      unfolding er by blast
    obtain bs where "encode_flags f3 6 = Inr bs" using encode_flags_total by blast
    with f3 show ?thesis by (simp add: encode_def)
  qed
  from 1 2 3 show ?thesis by blast
qed


theorem encode_imm_search_witness:
  "map opk_kind (operands ex_mi_noimm) = [''GP'']
   \<and> encode ex_mi_noimm = Inl StopIteration
   \<and> map opk_kind (operands ex_mi_imm) = [''GP'', ''imm'']
   \<and> encode ex_mi_imm = Inr [S ''FDI_ADD'', I 20995, I 1024, I 56]"
proof -
  let ?f0 = "InstrFlags0\<lparr>modrm_idx := 3, imm_idx := 2, imm_control := 4\<rparr>"
  let ?f1 = "?f0\<lparr>size_fix1 := 1, size_fix2 := 0\<rparr>"
  have a1: "map_of ENCODINGS (encoding ex_mi_noimm) = Some ?f0" by code_simp
  have a2: "4 \<le> imm_control ?f0" by simp
  have a3: "size_slots ex_mi_noimm ?f0 = Inr ([1, 1, -2, -3], ?f1)" by code_simp
  have a4: "set_operands [1, 1, -2, -3] 0 (operands ex_mi_noimm) ?f1
      = Inr (?f1\<lparr>op0_size := 0, op0_regty := 0\<rparr>)" by code_simp
  have a5: "\<forall>op \<in> set (operands ex_mi_noimm). opk_kind op \<noteq> K_IMM" by code_simp
  from encode_imm_search [OF a1 a2 a3 a4] a5 have a: "encode ex_mi_noimm = Inl StopIteration"
    by blast
  have b: "map opk_kind (operands ex_mi_noimm) = [''GP'']" by code_simp
  have c: "map opk_kind (operands ex_mi_imm) = [''GP'', ''imm'']" by code_simp
  have d: "encode ex_mi_imm = Inr [S ''FDI_ADD'', I 20995, I 1024, I 56]" by code_simp
  from a b c d show ?thesis by blast
qed

text \<open>
  C10 as stated fails where an earlier step raises first: with the form MI and operands of
  three distinct fixed sizes, \<open>encode\<close> raises the descriptive error about fixed operand
  sizes, both without an \<open>IMM\<close> operand (no StopIteration) and with one (no normal
  completion).
\<close>

theorem encode_imm_search_counterexample:
  "map_option imm_control (map_of ENCODINGS (encoding ex_mi_sizes_noimm)) = Some 4
   \<and> map opk_kind (operands ex_mi_sizes_noimm) = [''GP'', ''GP'', ''GP'']
   \<and> encode ex_mi_sizes_noimm = Inl InvalidFixedOperandSizes
   \<and> map_option imm_control (map_of ENCODINGS (encoding ex_mi_sizes_imm)) = Some 4
   \<and> map opk_kind (operands ex_mi_sizes_imm) = [''imm'', ''GP'', ''GP'']
   \<and> encode ex_mi_sizes_imm = Inl InvalidFixedOperandSizes"
  by code_simp

section \<open>Properties of the opcode parser and the expansion\<close>



lemma trie_levels_kinds:
  "fst ` set (trie_levels self) \<subseteq> {TABLE_ROOT, TABLE256, TABLE8, TABLE72, TABLE_PREFIX, TABLE_PREFIX_REP}"
  by (auto simp: trie_levels_def Let_def split: option.splits prod.splits if_splits)

lemma trie_levels_count:
  "prod_list (map (\<lambda>l. length (snd l)) (trie_levels self)) = (if extended self then 8 else 1)"
  by (auto simp: trie_levels_def Let_def split: option.splits prod.splits if_splits)

lemma trie_levels_ignores_bits:
  "trie_levels (self\<lparr>vexl := l, rexw := w\<rparr>) = trie_levels self"
  by (simp add: trie_levels_def)

lemma product_lists_zip_kinds:
  assumes "p \<in> set (product_lists (map snd lv))"
  shows "fst ` set (zip (map fst lv) p) = fst ` set lv"
proof -
  from assms have "length p = length lv" by (simp add: in_set_product_lists_length)
  then have "map fst (zip (map fst lv) p) = map fst lv" by simp
  then have "set (map fst (zip (map fst lv) p)) = set (map fst lv)" by simp
  then show ?thesis by (simp only: set_map)
qed


text \<open>
  C6 (as amended). For every parsable pattern in which both VEX.L and VEX.W are given as
  \<open>IG\<close>, the expansion adds no \<open>TABLE_VEX\<close> level: it is the expansion of the same pattern
  with the W and L positions left out, with 8 paths if the pattern is extended and 1
  otherwise. Nothing is multiplied by four.
\<close>

theorem for_trie_both_IG:
  assumes "parse s = Inr (Some oc)" and l: "vexl oc = Some ''IG''" and w: "rexw oc = Some ''IG''"
  shows "\<exists>paths. for_trie oc = Inr paths
     \<and> for_trie (oc\<lparr>vexl := None, rexw := None\<rparr>) = Inr paths
     \<and> length paths = (if extended oc then 8 else 1)
     \<and> (\<forall>p \<in> set paths. TABLE_VEX \<notin> fst ` set p)"
proof -
  define lv where "lv = trie_levels oc"
  define paths where "paths = map (\<lambda>prod. zip (map fst lv) prod) (product_lists (map snd lv))"
  have no01: "\<not> is_01 (vexl oc)" "\<not> is_01 (rexw oc)" using l w by (simp_all add: is_01_def)
  have a: "for_trie oc = Inr paths"
    using no01 by (simp add: for_trie_def paths_def lv_def)
  have b: "for_trie (oc\<lparr>vexl := None, rexw := None\<rparr>) = Inr paths"
    by (simp add: for_trie_def is_01_def paths_def lv_def trie_levels_ignores_bits)
  have "length paths = prod_list (map length (map snd lv))"
    by (simp add: paths_def length_product_lists prod_list.eq_foldr)
  also have "\<dots> = prod_list (map (\<lambda>l. length (snd l)) lv)" by (simp add: comp_def)
  finally have c: "length paths = (if extended oc then 8 else 1)"
    by (simp add: lv_def trie_levels_count)
  have d: "TABLE_VEX \<notin> fst ` set p" if "p \<in> set paths" for p
  proof -
    from that obtain prod where "prod \<in> set (product_lists (map snd lv))"
      and "p = zip (map fst lv) prod" by (auto simp: paths_def)
    then have "fst ` set p = fst ` set lv" by (simp add: product_lists_zip_kinds)
    with trie_levels_kinds [of oc] show ?thesis by (auto simp: lv_def)
  qed
  from a b c d show ?thesis by blast
qed


theorem for_trie_both_IG_witness:
  "for_trie \<lparr> prefix = Some (False, 1), escape = 1, opc = 16, opcext = None,
       extended = False, vex = False, vexl = Some ''IG'', rexw = Some ''IG'' \<rparr>
     = Inr [[(TABLE_ROOT, 1), (TABLE256, 16), (TABLE_PREFIX, 1)]]
   \<and> for_trie \<lparr> prefix = Some (False, 1), escape = 1, opc = 16, opcext = None,
       extended = False, vex = False, vexl = None, rexw = None \<rparr>
     = Inr [[(TABLE_ROOT, 1), (TABLE256, 16), (TABLE_PREFIX, 1)]]"
proof -
  let ?oc = "\<lparr> prefix = Some (False, 1), escape = 1, opc = 16, opcext = None,
       extended = False, vex = False, vexl = Some ''IG'', rexw = Some ''IG'' \<rparr>"
  have p: "parse ''66.WIG.LIG.0f10'' = Inr (Some ?oc)" by code_simp
  have l: "vexl ?oc = Some ''IG''" and w: "rexw ?oc = Some ''IG''" by simp_all
  from for_trie_both_IG [OF p l w] obtain paths where
    a: "for_trie ?oc = Inr paths" and b: "for_trie (?oc\<lparr>vexl := None, rexw := None\<rparr>) = Inr paths"
    by blast
  have c: "for_trie ?oc = Inr [[(TABLE_ROOT, 1), (TABLE256, 16), (TABLE_PREFIX, 1)]]"
    by code_simp
  from a c have "paths = [[(TABLE_ROOT, 1), (TABLE256, 16), (TABLE_PREFIX, 1)]]" by simp
  with b c show ?thesis by simp
qed

text \<open>
  C6 as stated fails: \<open>66.WIG.LIG.0f10\<close> expands to one path without a \<open>TABLE_VEX\<close>
  level, the same single path as \<open>66.0f10\<close>, not to four.
\<close>

theorem for_trie_both_IG_counterexample:
  "parse ''66.WIG.LIG.0f10'' = Inr (Some \<lparr> prefix = Some (False, 1), escape = 1, opc = 16,
         opcext = None, extended = False, vex = False, vexl = Some ''IG'', rexw = Some ''IG'' \<rparr>)
   \<and> for_trie \<lparr> prefix = Some (False, 1), escape = 1, opc = 16,
         opcext = None, extended = False, vex = False, vexl = Some ''IG'', rexw = Some ''IG'' \<rparr>
       = Inr [[(TABLE_ROOT, 1), (TABLE256, 16), (TABLE_PREFIX, 1)]]
   \<and> parse ''66.0f10'' = Inr (Some \<lparr> prefix = Some (False, 1), escape = 1, opc = 16,
         opcext = None, extended = False, vex = False, vexl = None, rexw = None \<rparr>)
   \<and> for_trie \<lparr> prefix = Some (False, 1), escape = 1, opc = 16,
         opcext = None, extended = False, vex = False, vexl = None, rexw = None \<rparr>
       = Inr [[(TABLE_ROOT, 1), (TABLE256, 16), (TABLE_PREFIX, 1)]]"
  by code_simp

section \<open>Properties of the mode filter\<close>

lemma str_int_64: "str_int 64 = ''64''" and str_int_32: "str_int 32 = ''32''"
  by code_simp+

lemma mode_selected_32: "mode_selected 32 fl \<longleftrightarrow> ''ONLY64'' \<notin> fl"
  by (simp add: mode_selected_def str_int_64)

lemma mode_selected_64: "mode_selected 64 fl \<longleftrightarrow> ''ONLY32'' \<notin> fl"
  by (simp add: mode_selected_def str_int_32)

lemma add_modes_insert_roots:
  "add_modes t opcode desc ms
     = insert_roots t opcode desc (map fst (filter (\<lambda>(i, mode). mode_selected mode (flags desc)) ms))"
proof (induction ms arbitrary: t)
  case Nil
  show ?case by simp
next
  case (Cons a ms)
  obtain i mode where a: "a = (i, mode)" by (cases a)
  show ?case
  proof (cases "mode_selected mode (flags desc)")
    case True
    have "add_modes t opcode desc (a # ms)
        = (case insert_line t opcode desc i of
             Inl e \<Rightarrow> Inl e
           | Inr t' \<Rightarrow> add_modes t' opcode desc ms)"
      using True by (simp add: a insert_line_def split: option.splits sum.splits)
    also have "\<dots> = (case insert_line t opcode desc i of
             Inl e \<Rightarrow> Inl e
           | Inr t' \<Rightarrow> insert_roots t' opcode desc
               (map fst (filter (\<lambda>(i, mode). mode_selected mode (flags desc)) ms)))"
      by (simp add: Cons.IH split: sum.splits)
    finally show ?thesis using True by (simp add: a)
  next
    case False
    then show ?thesis by (simp add: a Cons.IH)
  qed
qed

lemma enum_filter:
  "map fst (filter (\<lambda>(i, mode). P mode) (enumerate n modes))
     = filter (\<lambda>i. P (modes ! (i - n))) [n..<n + length modes]"
proof (induction modes arbitrary: n)
  case Nil
  show ?case by simp
next
  case (Cons m modes)
  have "[n..<n + length (m # modes)] = n # [Suc n..<Suc n + length modes]"
    by (simp add: upt_rec)
  moreover have "filter (\<lambda>i. P ((m # modes) ! (i - n))) [Suc n..<Suc n + length modes]
      = filter (\<lambda>i. P (modes ! (i - Suc n))) [Suc n..<Suc n + length modes]"
  proof (rule filter_cong [OF refl])
    fix x assume "x \<in> set [Suc n..<Suc n + length modes]"
    then have "x - n = Suc (x - Suc n)" by auto
    then show "P ((m # modes) ! (x - n)) = P (modes ! (x - Suc n))" by simp
  qed
  ultimately show ?case using Cons.IH [of "Suc n"] by simp
qed


text \<open>
  C7 (as amended). For every input line and every list of requested modes, the line is
  inserted into exactly the roots whose mode passes the filter, in order, where the
  filter of mode 32 tests that \<open>ONLY64\<close> is absent and the filter of mode 64 that
  \<open>ONLY32\<close> is absent (the string \<open>"ONLY%d" % (96 - mode)\<close>). With the modes 32 and 64
  requested: a descriptor with \<open>ONLY32\<close> and without \<open>ONLY64\<close> goes into the 32-bit
  root only, one with \<open>ONLY64\<close> and without \<open>ONLY32\<close> into the 64-bit root only, one
  with neither flag into both, and one with both flags into no root.
\<close>

theorem mode_filter:
  "add_modes t opcode desc (enumerate 0 modes)
     = insert_roots t opcode desc
         (filter (\<lambda>i. mode_selected (modes ! i) (flags desc)) [0..<length modes])
   \<and> (mode_selected 32 (flags desc) \<longleftrightarrow> ''ONLY64'' \<notin> flags desc)
   \<and> (mode_selected 64 (flags desc) \<longleftrightarrow> ''ONLY32'' \<notin> flags desc)
   \<and> filter (\<lambda>i. mode_selected ([32, 64] ! i) (flags desc)) [0..<length [32, 64 :: int]]
       = (if ''ONLY64'' \<in> flags desc then [] else [0]) @ (if ''ONLY32'' \<in> flags desc then [] else [1])"
proof -
  have a: "add_modes t opcode desc (enumerate 0 modes)
     = insert_roots t opcode desc
         (filter (\<lambda>i. mode_selected (modes ! i) (flags desc)) [0..<length modes])"
    using enum_filter [of "\<lambda>m. mode_selected m (flags desc)" 0 modes]
    by (simp add: add_modes_insert_roots)
  have "[0..<length [32, 64 :: int]] = [0, 1]" by (simp add: upt_rec)
  then have b: "filter (\<lambda>i. mode_selected ([32, 64] ! i) (flags desc)) [0..<length [32, 64 :: int]]
       = (if ''ONLY64'' \<in> flags desc then [] else [0]) @ (if ''ONLY32'' \<in> flags desc then [] else [1])"
    by (simp add: mode_selected_32 mode_selected_64)
  from a b show ?thesis by (simp add: mode_selected_32 mode_selected_64)
qed


theorem mode_filter_witness:
  "add_modes (Table_init 2) (Some ex_opc_90) ex_nop_only32 (enumerate 0 [32, 64])
     = insert_roots (Table_init 2) (Some ex_opc_90) ex_nop_only32 [0]"
proof -
  note m = mode_filter [of "Table_init 2" "Some ex_opc_90" ex_nop_only32 "[32, 64]"]
  have a: "add_modes (Table_init 2) (Some ex_opc_90) ex_nop_only32 (enumerate 0 [32, 64])
     = insert_roots (Table_init 2) (Some ex_opc_90) ex_nop_only32
         (filter (\<lambda>i. mode_selected ([32, 64] ! i) (flags ex_nop_only32)) [0..<length [32, 64 :: int]])"
    by (rule m [THEN conjunct1])
  have b: "filter (\<lambda>i. mode_selected ([32, 64] ! i) (flags ex_nop_only32)) [0..<length [32, 64 :: int]]
     = (if ''ONLY64'' \<in> flags ex_nop_only32 then [] else [0])
       @ (if ''ONLY32'' \<in> flags ex_nop_only32 then [] else [1])"
    by (rule m [THEN conjunct2, THEN conjunct2, THEN conjunct2])
  have c: "(if ''ONLY64'' \<in> flags ex_nop_only32 then [] else [0])
       @ (if ''ONLY32'' \<in> flags ex_nop_only32 then [] else [1]) = [0::nat]"
    by (simp add: ex_nop_only32_def)
  show ?thesis unfolding a b c by (rule refl)
qed

text \<open>
  C7 as stated fails for a descriptor that carries both flags: it contains \<open>ONLY32\<close>, yet
  the line \<open>90 NP - - - - NOP ONLY32 ONLY64\<close> is inserted into no root, the 32-bit root
  included; the two roots stay as \<open>Table(2)\<close> made them. With \<open>ONLY32\<close> alone the line
  creates its nodes under root 0.
\<close>

theorem mode_filter_counterexample:
  "build [32, 64] [(Some ex_opc_90, ex_nop_both)] = Inr (Table_init 2)
   \<and> node_names (build [32, 64] [(Some ex_opc_90, ex_nop_only32)])
       = [''root0'', ''root1'', ''t0,'', ''t0,90'']"
  by code_simp

section \<open>Properties of the layout\<close>

lemma and_not_mask_int: "(a::int) AND NOT (mask n) = push_bit n (drop_bit n a)"
proof (rule bit_eqI)
  fix m
  show "bit (a AND NOT (mask n)) m = bit (push_bit n (drop_bit n a)) m"
  proof (cases "n \<le> m")
    case True
    then have "n + (m - n) = m" by simp
    with True show ?thesis by (simp add: bit_simps)
  next
    case False
    then show ?thesis by (simp add: bit_simps)
  qed
qed

lemma align4_eq: "align4 n = 4 * ((n + 3) div 4)"
proof -
  have "NOT (3::int) = NOT (mask 2)" by (simp add: mask_eq_exp_minus_1)
  then have "align4 n = push_bit 2 (drop_bit 2 (n + 3))"
    unfolding align4_def by (simp only: and_not_mask_int)
  then show ?thesis by (simp add: push_bit_eq_mult drop_bit_eq_div)
qed

lemma align4_bounds: "n \<le> align4 n" "align4 n < n + 4"
  unfolding align4_eq by presburger+

lemma calc_loop_current:
  "snd (snd (calc_loop d (ann, offs, current))) = current + layout_words d"
  by (induction d arbitrary: ann offs current) (auto simp: layout_words_def)


lemma calc_offsets_eq:
  "\<exists>ann offs. calc_offsets t =
     (if 0x8000 \<le> layout_words (data t) then Inl MaximumTableSizeExceeded
      else Inr (t\<lparr>annotations := ann, offsets := offs\<rparr>))"
proof -
  obtain ann offs current where c: "calc_loop (data t) (annotations t, offsets t, 0) = (ann, offs, current)"
    by (cases "calc_loop (data t) (annotations t, offsets t, 0)")
  from calc_loop_current [of "data t" "annotations t" "offsets t" 0] c
  have "current = layout_words (data t)" by simp
  then have "calc_offsets t = (if 0x8000 \<le> layout_words (data t) then Inl MaximumTableSizeExceeded
      else Inr (t\<lparr>annotations := ann, offsets := offs\<rparr>))"
    by (simp add: calc_offsets_def c)
  then show ?thesis by blast
qed

lemma hexdigits_distinct: "distinct hexdigits" "length hexdigits = 16"
  by (simp_all add: hexdigits_def)

lemma digits_nonempty: "digits b n \<noteq> []"
  by (subst digits.simps) simp

lemma digits_small: "n < b \<Longrightarrow> digits b n = [hexdigits ! n]"
  by (subst digits.simps) simp

lemma digits_big: "2 \<le> b \<Longrightarrow> b \<le> n \<Longrightarrow> digits b n = digits b (n div b) @ [hexdigits ! (n mod b)]"
  by (subst digits.simps) simp

lemma digits_inj:
  assumes b: "2 \<le> b" "b \<le> 16"
  shows "digits b m = digits b n \<Longrightarrow> m = n"
proof (induction m arbitrary: n rule: less_induct)
  case (less m)
  have nth_inj: "hexdigits ! i = hexdigits ! j \<Longrightarrow> i = j" if "i < b" "j < b" for i j
    using that b hexdigits_distinct by (simp add: nth_eq_iff_index_eq)
  show ?case
  proof (cases "m < b")
    case True
    show ?thesis
    proof (cases "n < b")
      case True
      with \<open>m < b\<close> less.prems show ?thesis by (auto simp: digits_small dest: nth_inj)
    next
      case False
      then have "digits b n = digits b (n div b) @ [hexdigits ! (n mod b)]"
        using b by (simp add: digits_big)
      with less.prems True have "digits b (n div b) = []" by (simp add: digits_small)
      then show ?thesis by (simp add: digits_nonempty)
    qed
  next
    case False
    then have dm: "digits b m = digits b (m div b) @ [hexdigits ! (m mod b)]"
      using b by (simp add: digits_big)
    show ?thesis
    proof (cases "n < b")
      case True
      with less.prems dm have "digits b (m div b) = []" by (simp add: digits_small)
      then show ?thesis by (simp add: digits_nonempty)
    next
      case nb: False
      then have dn: "digits b n = digits b (n div b) @ [hexdigits ! (n mod b)]"
        using b by (simp add: digits_big)
      from less.prems dm dn have e1: "digits b (m div b) = digits b (n div b)"
        and e2: "hexdigits ! (m mod b) = hexdigits ! (n mod b)" by simp_all
      have "m div b < m" using False b by simp
      from less.IH [OF this e1] have d: "m div b = n div b" .
      have "m mod b = n mod b" using e2 b by (intro nth_inj) simp_all
      with d show ?thesis by (metis div_mult_mod_eq)
    qed
  qed
qed

lemma str_nat_inj: "str_nat i = str_nat j \<Longrightarrow> i = j"
  unfolding str_nat_def by (rule digits_inj) simp_all

lemma root_name_inj: "root_name i = root_name j \<Longrightarrow> i = j"
  by (simp add: root_name_def str_nat_inj)

lemma dict_set_new: "k \<notin> fst ` set d \<Longrightarrow> dict_set k v d = d @ [(k, v)]"
  by (induction d) auto

lemma Table_init_data:
  "data (Table_init n) = map (\<lambda>i. (root_name i, root_entry)) [0..<n]"
proof -
  have "fold (\<lambda>i d. dict_set (root_name i) root_entry d) [0..<n] []
      = map (\<lambda>i. (root_name i, root_entry)) [0..<n]"
  proof (induction n)
    case 0
    show ?case by simp
  next
    case (Suc n)
    have "root_name n \<notin> fst ` set (map (\<lambda>i. (root_name i, root_entry)) [0..<n])"
      by (auto dest: root_name_inj)
    then show ?case by (simp add: Suc dict_set_new)
  qed
  then show ?thesis by (simp add: Table_init_def)
qed

lemma layout_words_Table_init: "layout_words (data (Table_init n)) = 8 * int n"
proof -
  have a: "align4 (int (encode_length root_entry)) = 8"
    by (simp add: align4_eq encode_length_def root_entry_def)
  have "layout_words (map (\<lambda>i. (root_name i, root_entry)) xs) = 8 * int (length xs)" for xs
    by (induction xs) (simp_all add: layout_words_def a)
  from this [of "[0..<n]"] show ?thesis by (simp add: Table_init_data)
qed

lemma raw_bytes_Table_init: "encoded_bytes (data (Table_init n)) = 16 * int n"
proof -
  have a: "encode_length root_entry = 8" by (simp add: encode_length_def root_entry_def)
  have "encoded_bytes (map (\<lambda>i. (root_name i, root_entry)) xs) = 16 * int (length xs)"
    for xs :: "nat list"
    by (induction xs) (simp_all add: a encoded_bytes_def)
  from this [of "[0..<n]"] show ?thesis by (simp add: Table_init_data)
qed


text \<open>
  C3 (as amended). \<open>calc_offsets\<close> raises the capacity error if and only if the size of the
  layout reaches 0x8000 sixteen-bit words (0x10000 bytes), where every node counts with
  its number of words, payload plus children, rounded up to a multiple of four; it raises
  nothing else, and any table whose layout is smaller than 0x8000 words is laid out
  without error.
\<close>

theorem calc_offsets_capacity:
  "(calc_offsets t = Inl MaximumTableSizeExceeded \<longleftrightarrow> 0x8000 \<le> layout_words (data t))
   \<and> (layout_words (data t) < 0x8000 \<longleftrightarrow> (\<exists>t'. calc_offsets t = Inr t'))
   \<and> (\<forall>e. calc_offsets t = Inl e \<longrightarrow> e = MaximumTableSizeExceeded)
   \<and> layout_words (data t)
       = (\<Sum>(name, entry) \<leftarrow> data t. 4 * ((int (length (payload entry) + length (items entry)) + 3) div 4))"
proof -
  from calc_offsets_eq [of t] obtain ann offs where
    co: "calc_offsets t = (if 0x8000 \<le> layout_words (data t) then Inl MaximumTableSizeExceeded
      else Inr (t\<lparr>annotations := ann, offsets := offs\<rparr>))" by blast
  have lw: "layout_words (data t)
       = (\<Sum>(name, entry) \<leftarrow> data t. 4 * ((int (length (payload entry) + length (items entry)) + 3) div 4))"
    by (simp add: layout_words_def align4_eq encode_length_def)
  show ?thesis unfolding co using lw by auto
qed

theorem calc_offsets_capacity_witness:
  "calc_offsets (Table_init 4096) = Inl MaximumTableSizeExceeded
   \<and> (\<exists>t'. calc_offsets (Table_init 2) = Inr t')"
proof -
  have a: "(0x8000::int) \<le> layout_words (data (Table_init 4096))"
    by (simp add: layout_words_Table_init)
  have b: "layout_words (data (Table_init 2)) < 0x8000"
    by (simp add: layout_words_Table_init)
  from calc_offsets_capacity [of "Table_init 4096"] a
  have 1: "calc_offsets (Table_init 4096) = Inl MaximumTableSizeExceeded" by blast
  from calc_offsets_capacity [of "Table_init 2"] b
  have 2: "\<exists>t'. calc_offsets (Table_init 2) = Inr t'" by blast
  from 1 2 show ?thesis by blast
qed

text \<open>
  C3 as stated fails: \<open>Table(root_count=2048)\<close> holds 2048 root nodes of 8 words each,
  0x8000 bytes in all, and \<open>calc_offsets\<close> lays it out without raising.
\<close>

theorem calc_offsets_capacity_counterexample:
  "encoded_bytes (data (Table_init 2048)) = 0x8000
   \<and> \<not> isl (calc_offsets (Table_init 2048))"
proof -
  have "layout_words (data (Table_init 2048)) < 0x8000"
    by (simp add: layout_words_Table_init)
  with calc_offsets_eq [of "Table_init 2048"]
  have "\<exists>t'. calc_offsets (Table_init 2048) = Inr t'" by auto
  then have "\<not> isl (calc_offsets (Table_init 2048))" by auto
  then show ?thesis by (simp add: raw_bytes_Table_init)
qed

section \<open>Properties of the deduplication\<close>





lemma enumerate_map_snd: "map (\<lambda>(i, v). f v) (enumerate n xs) = map f xs"
  by (induction xs arbitrary: n) simp_all

lemma entry_map_items: "items (entry_map (\<lambda>_ v. f v) e) = map f (items e)"
  by (simp add: entry_map_def enumerate_map_snd)



































section \<open>Properties of the compiled table\<close>

lemma align4_nonneg: "0 \<le> n \<Longrightarrow> 0 \<le> align4 n"
  using align4_bounds(1) [of n] by simp

lemma node_offsets_names: "map fst (node_offsets d c) = map fst d"
  by (induction d c rule: node_offsets.induct) simp_all

lemma node_offsets_length: "length (node_offsets d c) = length d"
  by (induction d c rule: node_offsets.induct) simp_all

lemma node_offsets_ge: "(n, off) \<in> set (node_offsets d c) \<Longrightarrow> c \<le> off"
proof (induction d c rule: node_offsets.induct)
  case (1 c)
  then show ?case by simp
next
  case (2 name entry rest c)
  have "0 \<le> align4 (int (encode_length entry))" by (rule align4_nonneg) simp
  with 2 show ?case by auto
qed

lemma node_offsets_sorted: "sorted (map snd (node_offsets d c))"
proof (induction d c rule: node_offsets.induct)
  case (1 c)
  show ?case by simp
next
  case (2 name entry rest c)
  have a: "0 \<le> align4 (int (encode_length entry))" by (rule align4_nonneg) simp
  have "c \<le> off" if "off \<in> set (map snd (node_offsets rest (c + align4 (int (encode_length entry)))))" for off
  proof -
    from that obtain n where "(n, off) \<in> set (node_offsets rest (c + align4 (int (encode_length entry))))"
      by auto
    from node_offsets_ge [OF this] a show ?thesis by simp
  qed
  with 2 show ?case by simp
qed

lemma node_offsets_layout:
  "i < length d \<Longrightarrow> snd (node_offsets d c ! i) = c + layout_words (take i d)"
proof (induction d c arbitrary: i rule: node_offsets.induct)
  case (1 c)
  then show ?case by simp
next
  case (2 name entry rest c)
  show ?case
  proof (cases i)
    case 0
    then show ?thesis by (simp add: layout_words_def)
  next
    case (Suc j)
    with "2.prems" have "j < length rest" by simp
    from "2.IH" [OF this] Suc show ?thesis by (simp add: layout_words_def)
  qed
qed

lemma calc_loop_offsets:
  assumes "distinct (map fst d)" "fst ` set d \<inter> fst ` set offs = {}"
  shows "fst (snd (calc_loop d (ann, offs, c))) = offs @ node_offsets d c"
  using assms
proof (induction d arbitrary: ann offs c)
  case Nil
  show ?case by simp
next
  case (Cons a d)
  obtain name entry where a: "a = (name, entry)" by (cases a)
  from Cons.prems(2) have "name \<notin> fst ` set offs" by (auto simp: a)
  then have ds: "dict_set name c offs = offs @ [(name, c)]" by (rule dict_set_new)
  have d1: "distinct (map fst d)" using Cons.prems(1) by simp
  have d2: "fst ` set d \<inter> fst ` set (offs @ [(name, c)]) = {}"
    using Cons.prems by (auto simp: a)
  from Cons.IH [OF d1 d2] show ?case by (simp add: a ds)
qed

lemma dict_get_distinct:
  "distinct (map fst d) \<Longrightarrow> (k, v) \<in> set d \<Longrightarrow> dict_get d k = Inr v"
  by (simp add: dict_get_def)

lemma offset_entries_layout:
  assumes "distinct (map fst d)" "set d' \<subseteq> set d"
  shows "offset_entries d (node_offsets d' c) = Inr (zip (map snd (node_offsets d' c)) (map snd d'))"
  using assms(2)
proof (induction d' c rule: node_offsets.induct)
  case (1 c)
  show ?case by simp
next
  case (2 name entry rest c)
  then have "(name, entry) \<in> set d" by simp
  from dict_get_distinct [OF assms(1) this] 2 show ?case by simp
qed

lemma enc_items_length: "enc_items f its = Inr ws \<Longrightarrow> length ws = length its"
proof (induction its arbitrary: ws)
  case Nil
  then show ?case by simp
next
  case (Cons a its)
  then show ?case by (auto split: sum.splits option.splits if_splits)
qed

lemma entry_encode_length: "entry_encode e f = Inr ws \<Longrightarrow> length ws = encode_length e"
  by (auto simp: entry_encode_def encode_length_def split: sum.splits dest: enc_items_length)

lemma root_offsets_nth:
  "root_offsets offs ks = Inr ros \<Longrightarrow>
     length ros = length ks \<and> (\<forall>i < length ks. dict_get offs (ks ! i) = Inr (ros ! i))"
proof (induction ks arbitrary: ros)
  case Nil
  then show ?case by simp
next
  case (Cons k ks)
  from Cons.prems obtain off os where o: "dict_get offs k = Inr off" "root_offsets offs ks = Inr os"
    "ros = off # os" by (auto split: sum.splits)
  from Cons.IH [OF o(2)] have ih: "length os = length ks"
    "\<forall>i < length ks. dict_get offs (ks ! i) = Inr (os ! i)" by simp_all
  show ?case
  proof (intro conjI allI impI)
    show "length ros = length (k # ks)" using o(3) ih(1) by simp
  next
    fix i assume "i < length (k # ks)"
    then show "dict_get offs ((k # ks) ! i) = Inr (ros ! i)"
      using o ih(2) by (cases i) simp_all
  qed
qed

lemma emit_layout:
  assumes "emit t (zip (map snd (node_offsets d c)) (map snd d)) blob0 = Inr blob"
    and "int (length blob0) \<le> c"
  shows "(\<exists>rest. blob = blob0 @ rest)
     \<and> (\<forall>i < length d. \<exists>ws. entry_encode (snd (d ! i)) (encode_item t) = Inr ws
            \<and> take (length ws) (drop (nat (snd (node_offsets d c ! i))) blob) = ws)"
  using assms
proof (induction d arbitrary: c blob0)
  case Nil
  then show ?case by simp
next
  case (Cons a d)
  obtain name entry where a: "a = (name, entry)" by (cases a)
  define c' where "c' = c + align4 (int (encode_length entry))"
  from Cons.prems(1) obtain ws0 where ws0: "entry_encode entry (encode_item t) = Inr ws0"
    by (cases "entry_encode entry (encode_item t)") (simp_all add: a)
  define pad where "pad = replicate (nat (c - int (length blob0))) (I 0)"
  define blob1 where "blob1 = blob0 @ pad @ ws0"
  from Cons.prems(1) ws0 have e1: "emit t (zip (map snd (node_offsets d c')) (map snd d)) blob1 = Inr blob"
    by (simp add: a c'_def blob1_def pad_def)
  have lp: "length (blob0 @ pad) = nat c" using Cons.prems(2) by (simp add: pad_def)
  have lw: "length ws0 = encode_length entry" using ws0 by (rule entry_encode_length)
  have "int (length blob1) = c + int (encode_length entry)"
    using Cons.prems(2) by (simp add: blob1_def pad_def lw)
  also have "\<dots> \<le> c'" unfolding c'_def using align4_bounds(1) [of "int (encode_length entry)"] by simp
  finally have l1: "int (length blob1) \<le> c'" .
  from Cons.IH [OF e1 l1] obtain rest where rest: "blob = blob1 @ rest"
    and ih: "\<forall>i < length d. \<exists>ws. entry_encode (snd (d ! i)) (encode_item t) = Inr ws
            \<and> take (length ws) (drop (nat (snd (node_offsets d c' ! i))) blob) = ws" by blast
  have b: "blob = (blob0 @ pad) @ ws0 @ rest" using rest by (simp add: blob1_def)
  have seg0: "take (length ws0) (drop (nat c) blob) = ws0"
    unfolding b using lp by simp
  show ?case
  proof (intro conjI allI impI)
    show "\<exists>rest. blob = blob0 @ rest" using b by simp
  next
    fix i assume i: "i < length (a # d)"
    show "\<exists>ws. entry_encode (snd ((a # d) ! i)) (encode_item t) = Inr ws
            \<and> take (length ws) (drop (nat (snd (node_offsets (a # d) c ! i))) blob) = ws"
    proof (cases i)
      case 0
      with ws0 seg0 show ?thesis by (simp add: a)
    next
      case (Suc j)
      with i have "j < length d" by simp
      with ih Suc show ?thesis by (simp add: a c'_def)
    qed
  qed
qed

lemma defines_lines_nth:
  "i < length modes \<Longrightarrow> i < length ros \<Longrightarrow>
     defines_lines modes ros ! i
       = ''FD_TABLE_OFFSET_'' @ str_int (modes ! i) @ '' '' @ str_int (ros ! i)"
  by (simp add: defines_lines_def)

lemma calc_offsets_fresh:
  assumes "distinct (map fst (data t))" "offsets t = []" "calc_offsets t = Inr t1"
  shows "data t1 = data t" "roots t1 = roots t" "offsets t1 = node_offsets (data t) 0"
proof -
  obtain ann offs current where c: "calc_loop (data t) (annotations t, offsets t, 0) = (ann, offs, current)"
    by (cases "calc_loop (data t) (annotations t, offsets t, 0)")
  from assms(3) have t1: "t1 = t\<lparr>annotations := ann, offsets := offs\<rparr>"
    by (simp add: calc_offsets_def c split: if_splits)
  from calc_loop_offsets [OF assms(1), of "[]" "annotations t" 0] c assms(2)
  have "offs = node_offsets (data t) 0" by simp
  with t1 show "data t1 = data t" "roots t1 = roots t" "offsets t1 = node_offsets (data t) 0"
    by simp_all
qed

lemma compile_layout:
  assumes dist: "distinct (map fst (data t))" and fresh: "offsets t = []"
    and comp: "compile t = Inr (blob, ann, ros)"
  shows "\<exists>t1. calc_offsets t = Inr t1 \<and> length ros = length (roots t)
     \<and> (\<forall>i < length (roots t). \<exists>j ent ws.
           j < length (data t) \<and> data t ! j = (roots t ! i, ent)
           \<and> entry_encode ent (encode_item t1) = Inr ws
           \<and> length ws = length (payload ent) + length (items ent)
           \<and> ros ! i = layout_words (take j (data t)) \<and> 0 \<le> ros ! i
           \<and> take (length ws) (drop (nat (ros ! i)) blob) = ws)"
proof -
  define d where "d = data t"
  from comp obtain t1 where t1: "calc_offsets t = Inr t1"
    by (cases "calc_offsets t") (simp_all add: compile_def)
  note f = calc_offsets_fresh [OF dist fresh t1]
  have oe: "offset_entries (data t1) (offsets t1)
      = Inr (zip (map snd (node_offsets d 0)) (map snd d))"
    unfolding f d_def using offset_entries_layout [OF dist subset_refl, of 0] by simp
  define pairs where "pairs = zip (map snd (node_offsets d 0)) (map snd d)"
  have "map fst pairs = map snd (node_offsets d 0)"
    unfolding pairs_def by (simp add: node_offsets_length)
  then have "sorted (map fst pairs)" by (simp add: node_offsets_sorted)
  then have sk: "sort_key fst pairs = pairs" by (rule sort_key_id_if_sorted)
  from comp t1 oe obtain ordered where so: "sorted_entries pairs = Inr ordered"
    by (cases "sorted_entries pairs") (simp_all add: compile_def pairs_def)
  then have ord: "ordered = pairs"
    by (simp add: sorted_entries_def Let_def sk split: if_splits)
  from comp t1 oe so ord obtain blob' where em: "emit t1 pairs [] = Inr blob'"
    by (cases "emit t1 pairs []") (simp_all add: compile_def pairs_def)
  from comp t1 oe so ord em obtain ros' where ro: "root_offsets (offsets t1) (roots t1) = Inr ros'"
    by (cases "root_offsets (offsets t1) (roots t1)") (simp_all add: compile_def pairs_def)
  from comp t1 oe so ord em ro have eq: "blob' = blob" "ros' = ros"
    by (simp_all add: compile_def pairs_def)
  from emit_layout [of t1 d 0 "[]" blob] em eq have seg:
    "\<forall>i < length d. \<exists>ws. entry_encode (snd (d ! i)) (encode_item t1) = Inr ws
            \<and> take (length ws) (drop (nat (snd (node_offsets d 0 ! i))) blob) = ws"
    by (simp add: pairs_def)
  from root_offsets_nth [OF ro] eq f have rl: "length ros = length (roots t)"
    and rn: "\<forall>i < length (roots t). dict_get (node_offsets d 0) (roots t ! i) = Inr (ros ! i)"
    by (simp_all add: d_def)
  have main: "\<exists>j ent ws.
           j < length d \<and> d ! j = (roots t ! i, ent)
           \<and> entry_encode ent (encode_item t1) = Inr ws
           \<and> length ws = length (payload ent) + length (items ent)
           \<and> ros ! i = layout_words (take j d) \<and> 0 \<le> ros ! i
           \<and> take (length ws) (drop (nat (ros ! i)) blob) = ws" if i: "i < length (roots t)" for i
  proof -
    from rn i have "dict_get (node_offsets d 0) (roots t ! i) = Inr (ros ! i)" by simp
    then have "map_of (node_offsets d 0) (roots t ! i) = Some (ros ! i)"
      by (simp add: dict_get_def split: option.splits)
    then have "(roots t ! i, ros ! i) \<in> set (node_offsets d 0)" by (rule map_of_SomeD)
    then obtain j where j: "j < length (node_offsets d 0)" "node_offsets d 0 ! j = (roots t ! i, ros ! i)"
      by (auto simp: in_set_conv_nth)
    then have jl: "j < length d" by (simp add: node_offsets_length)
    have "map fst (node_offsets d 0) ! j = map fst d ! j" by (simp add: node_offsets_names)
    with j jl have nm: "fst (d ! j) = roots t ! i" by simp
    define ent where "ent = snd (d ! j)"
    have dj: "d ! j = (roots t ! i, ent)" using nm by (simp add: ent_def prod_eq_iff)
    from seg jl obtain ws where ws: "entry_encode ent (encode_item t1) = Inr ws"
      "take (length ws) (drop (nat (snd (node_offsets d 0 ! j))) blob) = ws"
      unfolding ent_def by blast
    have off: "ros ! i = layout_words (take j d)"
      using node_offsets_layout [OF jl, of 0] j(2) by simp
    have "(roots t ! i, ros ! i) \<in> set (node_offsets d 0)" using j by (metis nth_mem)
    from node_offsets_ge [OF this] have nn: "0 \<le> ros ! i" .
    have lw: "length ws = length (payload ent) + length (items ent)"
      using entry_encode_length [OF ws(1)] by (simp add: encode_length_def)
    from ws(2) j(2) have "take (length ws) (drop (nat (ros ! i)) blob) = ws" by simp
    with jl dj ws(1) lw off nn show ?thesis by blast
  qed
  from t1 rl main show ?thesis unfolding d_def by blast
qed

text \<open>
  C2 (as amended). Take a table whose dictionary has distinct keys and whose offsets have
  not been assigned yet, and let \<open>compile\<close> return. Then there is one root offset per
  root, and the constant emitted for each mode is that offset in decimal. The offset of a
  root is the index, in 16-bit words, at which the serialization of the root node starts
  in the table data: it is the size in words of the nodes laid out before the root, and
  the words of the table data from that index on are the payload and child words of the
  root. (The byte offset is twice the constant.)
\<close>

theorem compile_root_offsets:
  assumes dist: "distinct (map fst (data t))" and fresh: "offsets t = []"
    and comp: "compile t = Inr (blob, ann, ros)"
  shows "\<exists>t1. calc_offsets t = Inr t1 \<and> length ros = length (roots t)
     \<and> (\<forall>i < length (roots t).
           (i < length modes \<longrightarrow>
              defines_lines modes ros ! i
                = ''FD_TABLE_OFFSET_'' @ str_int (modes ! i) @ '' '' @ str_int (ros ! i))
           \<and> (\<exists>j ent ws.
                 j < length (data t) \<and> data t ! j = (roots t ! i, ent)
                 \<and> entry_encode ent (encode_item t1) = Inr ws
                 \<and> length ws = length (payload ent) + length (items ent)
                 \<and> ros ! i = layout_words (take j (data t)) \<and> 0 \<le> ros ! i
                 \<and> take (length ws) (drop (nat (ros ! i)) blob) = ws))"
proof -
  from compile_layout [OF assms] obtain t1 where
    t1: "calc_offsets t = Inr t1" and len: "length ros = length (roots t)"
    and seg: "\<forall>i < length (roots t). \<exists>j ent ws.
           j < length (data t) \<and> data t ! j = (roots t ! i, ent)
           \<and> entry_encode ent (encode_item t1) = Inr ws
           \<and> length ws = length (payload ent) + length (items ent)
           \<and> ros ! i = layout_words (take j (data t)) \<and> 0 \<le> ros ! i
           \<and> take (length ws) (drop (nat (ros ! i)) blob) = ws" by blast
  have "defines_lines modes ros ! i
      = ''FD_TABLE_OFFSET_'' @ str_int (modes ! i) @ '' '' @ str_int (ros ! i)"
    if "i < length (roots t)" "i < length modes" for i
    using that len by (intro defines_lines_nth) simp_all
  with t1 len seg show ?thesis by blast
qed


theorem compile_root_offsets_witness:
  "compile (Table_init 2)
     = Inr (replicate 16 (I 0), [(0, ''root0(-1)''), (8, ''root1(-1)'')], [0, 8])
   \<and> length [0, 8 :: int] = length (roots (Table_init 2))"
proof -
  have d: "distinct (map fst (data (Table_init 2)))" by code_simp
  have f: "offsets (Table_init 2) = []" by (simp add: Table_init_def)
  have c: "compile (Table_init 2)
     = Inr (replicate 16 (I 0), [(0, ''root0(-1)''), (8, ''root1(-1)'')], [0, 8])" by code_simp
  from compile_root_offsets [OF d f c, of "[32, 64]"]
  have "length [0, 8 :: int] = length (roots (Table_init 2))" by blast
  with c show ?thesis by simp
qed


text \<open>
  C2 as stated fails: for the two lines \<open>90 NP - - - - NOP ONLY32\<close> and
  \<open>0f05 NP - - - - SYSCALL ONLY64\<close> compiled for the modes 32 and 64, the constant of
  the 64-bit root is 8. The root's eight words start at word 8 of the table data, which
  is byte offset 16; the eight words at byte offset 8 (word 4) are not the root.
\<close>

theorem compile_root_offsets_counterexample:
  "table_defines [32, 64] (generate [32, 64] ex_two_modes)
     = [''FD_TABLE_OFFSET_32 0'', ''FD_TABLE_OFFSET_64 8'']
   \<and> take 8 (drop 8 (table_words (generate [32, 64] ex_two_modes)))
     = [I 0, I 554, I 0, I 0, I 0, I 0, I 0, I 0]
   \<and> take 8 (drop 4 (table_words (generate [32, 64] ex_two_modes)))
     = [I 0, I 0, I 0, I 0, I 0, I 554, I 0, I 0]"
  by code_simp

end
